theory Spec2Isabelle
  imports Complex_Main "HOL-Library.Word"
begin

section \<open>JavaScript strings and values\<close>

text \<open>
  A JavaScript string is a sequence of UTF-16 code units, a Buffer a sequence of bytes.
  The string literals of \<^verbatim>\<open>server.js\<close> are ASCII; \<open>lit\<close> turns such a literal into
  its code units.
\<close>

type_synonym jschar = "16 word"
type_synonym jsstring = "jschar list"
type_synonym bytes = "8 word list"

definition lit :: "string \<Rightarrow> jsstring" where
  "lit s = map of_char s"

text \<open>
  The values a parsed JSON body or a multipart text field can hold. JSON numbers are
  kept as reals: the handlers only test them for truthiness and print them.
\<close>

datatype jsvalue =
    JUndefined
  | JNull
  | JBool bool
  | JNum real
  | JStr jsstring
  | JArr "jsvalue list"
  | JObj "(jsstring \<times> jsvalue) list"

text \<open>\<^verbatim>\<open>!v\<close> is \<open>\<not> truthy v\<close>.\<close>

fun truthy :: "jsvalue \<Rightarrow> bool" where
  "truthy JUndefined = False"
| "truthy JNull = False"
| "truthy (JBool b) = b"
| "truthy (JNum r) = (r \<noteq> 0)"
| "truthy (JStr s) = (s \<noteq> [])"
| "truthy (JArr xs) = True"
| "truthy (JObj kvs) = True"

text \<open>Thrown values: \<^verbatim>\<open>new Error(msg)\<close>, a TypeError of the engine, an error of multer.\<close>

datatype jserror = Error jsstring | TypeError jsstring | MulterError jsstring

fun message :: "jserror \<Rightarrow> jsstring" where
  "message (Error m) = m"
| "message (TypeError m) = m"
| "message (MulterError m) = m"

subsection \<open>String.prototype methods\<close>

text \<open>
  \<^verbatim>\<open>s.lastIndexOf(c)\<close> for a one-unit search string: the index of the last occurrence,
  or \<open>-1\<close>.
\<close>

definition lastIndexOf :: "jsstring \<Rightarrow> jschar \<Rightarrow> int" where
  "lastIndexOf s c =
     (if c \<in> set s then int (length (dropWhile (\<lambda>x. x \<noteq> c) (rev s))) - 1 else - 1)"

text \<open>
  \<^verbatim>\<open>s.slice(start)\<close>: a negative start counts from the end, and the start is clamped
  to the string.
\<close>

definition slice_js :: "jsstring \<Rightarrow> int \<Rightarrow> jsstring" where
  "slice_js s start =
     (let len = int (length s);
          from = (if start < 0 then max (len + start) 0 else min start len)
      in drop (nat from) s)"

text \<open>
  \<^verbatim>\<open>s.trim()\<close> removes the WhiteSpace and LineTerminator code units of ECMAScript from
  both ends.
\<close>

definition is_whitespace :: "jschar \<Rightarrow> bool" where
  "is_whitespace c =
     (c \<in> {0x9, 0xA, 0xB, 0xC, 0xD, 0x20, 0xA0, 0x1680, 0x2028, 0x2029, 0x202F, 0x205F,
            0x3000, 0xFEFF} \<or> (0x2000 \<le> c \<and> c \<le> 0x200A))"

definition trim :: "jsstring \<Rightarrow> jsstring" where
  "trim s = rev (dropWhile is_whitespace (rev (dropWhile is_whitespace s)))"

text \<open>A decimal numeral, as \<^verbatim>\<open>${index + 1}\<close> prints a positive integer.\<close>

function decimal :: "nat \<Rightarrow> string" where
  "decimal n =
     (if n < 10 then [''0123456789'' ! n]
      else decimal (n div 10) @ [''0123456789'' ! (n mod 10)])"
  by pat_completeness auto
termination
  by (relation "measure id") auto

declare decimal.simps [simp del]

text \<open>The number a string of decimal digits stands for.\<close>

definition decimal_value :: "string \<Rightarrow> nat" where
  "decimal_value ds = foldl (\<lambda>a c. 10 * a + (of_char c - 48)) 0 ds"

text \<open>A hexadecimal numeral in lower case, as \<^verbatim>\<open>%x\<close> prints it.\<close>

function hexadecimal :: "nat \<Rightarrow> string" where
  "hexadecimal n =
     (if n < 16 then [''0123456789abcdef'' ! n]
      else hexadecimal (n div 16) @ [''0123456789abcdef'' ! (n mod 16)])"
  by pat_completeness auto
termination
  by (relation "measure id") auto

declare hexadecimal.simps [simp del]

subsection \<open>The runtime the service runs on\<close>

text \<open>
  What the handlers take from outside \<^verbatim>\<open>server.js\<close>: the environment variable, the
  Gemini client (model name and prompt to a completion text, or a thrown error), the
  JSON functions of the engine, the printing of a number, Unicode lower-casing, the two
  extraction libraries, and the greatest length of a string the engine builds
  (\<^verbatim>\<open>buffer.constants.MAX_STRING_LENGTH\<close>).
\<close>

record runtime =
  GEMINI_API_KEY :: "jsstring option"
  generateContent :: "jsstring \<Rightarrow> jsstring \<Rightarrow> jserror + jsstring"
  JSON_parse :: "jsstring \<Rightarrow> jsvalue option"
  JSON_stringify :: "jsvalue \<Rightarrow> jsstring"
  numberToString :: "real \<Rightarrow> jsstring"
  toLowerCase :: "jsstring \<Rightarrow> jsstring"
  pdfParse :: "bytes \<Rightarrow> jserror + jsstring"
  mammoth_extractRawText :: "bytes \<Rightarrow> jserror + jsstring"
  max_string_length :: nat

text \<open>\<^verbatim>\<open>xs.join(sep)\<close> on strings.\<close>

fun join :: "jsstring \<Rightarrow> jsstring list \<Rightarrow> jsstring" where
  "join sep [] = []"
| "join sep [x] = x"
| "join sep (x # y # ys) = x @ sep @ join sep (y # ys)"

text \<open>The results of a list of evaluations done in order: the first thrown error, if any.\<close>

fun collect :: "(jserror + 'a) list \<Rightarrow> jserror + 'a list" where
  "collect [] = Inr []"
| "collect (Inl e # rs) = Inl e"
| "collect (Inr x # rs) = (case collect rs of Inl e \<Rightarrow> Inl e | Inr xs \<Rightarrow> Inr (x # xs))"

text \<open>
  The string a template literal puts in for \<^verbatim>\<open>${v}\<close>: a string as it is; an array
  as its elements joined by commas (\<^verbatim>\<open>null\<close> and \<^verbatim>\<open>undefined\<close> elements empty);
  an object as \<^verbatim>\<open>[object Object]\<close> through the inherited \<^verbatim>\<open>toString\<close>. An own
  \<^verbatim>\<open>toString\<close> key of a parsed object hides the inherited method and holds no
  function, the remaining \<^verbatim>\<open>valueOf\<close> gives no primitive, and the conversion throws
  a TypeError.
\<close>

fun ToString :: "runtime \<Rightarrow> jsvalue \<Rightarrow> jserror + jsstring" where
  "ToString rt JUndefined = Inr (lit ''undefined'')"
| "ToString rt JNull = Inr (lit ''null'')"
| "ToString rt (JBool b) = Inr (if b then lit ''true'' else lit ''false'')"
| "ToString rt (JNum r) = Inr (numberToString rt r)"
| "ToString rt (JStr s) = Inr s"
| "ToString rt (JArr xs) =
     (case collect
             (map (\<lambda>x. case x of JUndefined \<Rightarrow> Inr [] | JNull \<Rightarrow> Inr [] | _ \<Rightarrow> ToString rt x) xs) of
        Inl e \<Rightarrow> Inl e
      | Inr parts \<Rightarrow> Inr (join (lit '','') parts))"
| "ToString rt (JObj kvs) =
     (if lit ''toString'' \<in> set (map fst kvs)
      then Inl (TypeError (lit ''Cannot convert object to primitive value''))
      else Inr (lit ''[object Object]''))"

subsection \<open>Buffer.prototype.toString('utf-8')\<close>

text \<open>
  Node decodes the bytes as UTF-8 with the decoder of the Encoding Standard (a state of
  bytes needed, code point so far and the bounds of the next byte): a malformed sequence
  is no error, it becomes U+FFFD. The code points are then written as UTF-16 code units.
  A byte order mark is kept. The call throws only when the buffer is longer than the
  greatest string of the engine.
\<close>

record utf8_state =
  needed :: nat
  code_point :: nat
  lower :: nat
  upper :: nat

definition utf8_idle :: utf8_state where
  "utf8_idle = \<lparr>needed = 0, code_point = 0, lower = 0x80, upper = 0xBF\<rparr>"

definition utf8_start :: "nat \<Rightarrow> nat list \<times> utf8_state" where
  "utf8_start x =
     (if x \<le> 0x7F then ([x], utf8_idle)
      else if 0xC2 \<le> x \<and> x \<le> 0xDF then
        ([], \<lparr>needed = 1, code_point = x mod 32, lower = 0x80, upper = 0xBF\<rparr>)
      else if 0xE0 \<le> x \<and> x \<le> 0xEF then
        ([], \<lparr>needed = 2, code_point = x mod 16,
              lower = (if x = 0xE0 then 0xA0 else 0x80),
              upper = (if x = 0xED then 0x9F else 0xBF)\<rparr>)
      else if 0xF0 \<le> x \<and> x \<le> 0xF4 then
        ([], \<lparr>needed = 3, code_point = x mod 8,
              lower = (if x = 0xF0 then 0x90 else 0x80),
              upper = (if x = 0xF4 then 0x8F else 0xBF)\<rparr>)
      else ([0xFFFD], utf8_idle))"

fun utf8_decode_from :: "utf8_state \<Rightarrow> bytes \<Rightarrow> nat list" where
  "utf8_decode_from st [] = (if needed st \<noteq> 0 then [0xFFFD] else [])"
| "utf8_decode_from st (b # bs) =
     (let x = unat b in
      if needed st = 0 then
        (case utf8_start x of (out, st') \<Rightarrow> out @ utf8_decode_from st' bs)
      else if x < lower st \<or> upper st < x then
        (case utf8_start x of (out, st') \<Rightarrow> 0xFFFD # out @ utf8_decode_from st' bs)
      else
        (let cp = code_point st * 64 + x mod 64 in
         if needed st = 1 then cp # utf8_decode_from utf8_idle bs
         else utf8_decode_from
                \<lparr>needed = needed st - 1, code_point = cp, lower = 0x80, upper = 0xBF\<rparr> bs))"

definition utf16_units :: "nat \<Rightarrow> jsstring" where
  "utf16_units cp =
     (if cp < 0x10000 then [of_nat cp]
      else [of_nat (0xD800 + (cp - 0x10000) div 1024),
            of_nat (0xDC00 + (cp - 0x10000) mod 1024)])"

definition utf8_decode :: "bytes \<Rightarrow> jsstring" where
  "utf8_decode buf = concat (map utf16_units (utf8_decode_from utf8_idle buf))"

definition buffer_toString_utf8 :: "runtime \<Rightarrow> bytes \<Rightarrow> jserror + jsstring" where
  "buffer_toString_utf8 rt buf =
     (if max_string_length rt < length buf then
        Inl (Error (lit ''Cannot create a string longer than 0x'' @
                    lit (hexadecimal (max_string_length rt)) @ lit '' characters''))
      else Inr (utf8_decode buf))"

text \<open>
  What UTF-8 is, to state what the decoder does: the Unicode scalar values (the code
  points that are no surrogates) and the bytes that encode one of them.
\<close>

definition scalar_value :: "nat \<Rightarrow> bool" where
  "scalar_value cp = (cp < 0xD800 \<or> (0xE000 \<le> cp \<and> cp < 0x110000))"

definition utf8_encode :: "nat \<Rightarrow> bytes" where
  "utf8_encode cp =
     (if cp < 0x80 then [of_nat cp]
      else if cp < 0x800 then [of_nat (0xC0 + cp div 64), of_nat (0x80 + cp mod 64)]
      else if cp < 0x10000 then
        [of_nat (0xE0 + cp div 4096), of_nat (0x80 + cp div 64 mod 64), of_nat (0x80 + cp mod 64)]
      else
        [of_nat (0xF0 + cp div 262144), of_nat (0x80 + cp div 4096 mod 64),
         of_nat (0x80 + cp div 64 mod 64), of_nat (0x80 + cp mod 64)])"

definition well_formed_utf8 :: "bytes \<Rightarrow> bool" where
  "well_formed_utf8 buf =
     (\<exists>cps. list_all scalar_value cps \<and> buf = concat (map utf8_encode cps))"

section \<open>Upload gate\<close>

record uploaded_file =
  originalname :: jsstring
  buffer :: bytes

definition allowedTypes :: "jsstring list" where
  "allowedTypes = [lit ''.pdf'', lit ''.docx'', lit ''.txt'']"

text \<open>
  \<^verbatim>\<open>file.originalname.toLowerCase().slice(file.originalname.lastIndexOf('.'))\<close>:
  the index is taken in the original name and applied to the lower-cased one.
\<close>

definition fileExt :: "runtime \<Rightarrow> uploaded_file \<Rightarrow> jsstring" where
  "fileExt rt f = slice_js (toLowerCase rt (originalname f)) (lastIndexOf (originalname f) 0x2E)"

definition fileFilter :: "runtime \<Rightarrow> uploaded_file \<Rightarrow> jserror + bool" where
  "fileFilter rt f =
     (if fileExt rt f \<in> set allowedTypes then Inr True
      else Inl (Error (lit ''Invalid file type. Only PDF, DOCX, and TXT files are allowed.'')))"

section \<open>CORS origin callback\<close>

definition allowedOrigins :: "jsstring list" where
  "allowedOrigins =
     [lit ''http://localhost:5173'',
      lit ''https://lovable.dev'',
      lit ''https://fb974799-ea5e-4d7f-b7d5-59fd6e909e7d.lovableproject.com'',
      lit ''https://job-matcher-backend-production-4600.up.railway.app'']"

text \<open>The character class \<^verbatim>\<open>[a-zA-Z0-9-]\<close>.\<close>

definition label_char :: "jschar \<Rightarrow> bool" where
  "label_char c =
     ((0x61 \<le> c \<and> c \<le> 0x7A) \<or> (0x41 \<le> c \<and> c \<le> 0x5A) \<or> (0x30 \<le> c \<and> c \<le> 0x39) \<or> c = 0x2D)"

text \<open>
  A match of \<^verbatim>\<open>/^https:\/\/[a-zA-Z0-9-]+<tail>$/\<close> for a literal tail: the prefix,
  then the longest run of class characters, which must not be empty, then exactly the
  tail up to the end of the string. (Both tails begin with a dot, which is outside the
  class, so the longest run is the only one that can be followed by the tail.)
\<close>

definition match_https_label :: "string \<Rightarrow> jsstring \<Rightarrow> bool" where
  "match_https_label tail origin =
     (let pre = lit ''https://'' in
      take (length pre) origin = pre \<and>
      (let rest = drop (length pre) origin
       in takeWhile label_char rest \<noteq> [] \<and> dropWhile label_char rest = lit tail))"

definition isLovableSubdomain :: "jsstring \<Rightarrow> bool" where
  "isLovableSubdomain origin = match_https_label ''.lovable.dev'' origin"

definition isLovableProject :: "jsstring \<Rightarrow> bool" where
  "isLovableProject origin = match_https_label ''.lovableproject.com'' origin"

text \<open>
  The \<^verbatim>\<open>origin\<close> function given to \<^verbatim>\<open>cors\<close>; \<open>None\<close> is a request without the
  header (\<^verbatim>\<open>undefined\<close>). \<^verbatim>\<open>!origin\<close> also holds for the empty string.
\<close>

definition cors_origin :: "jsstring option \<Rightarrow> jserror + bool" where
  "cors_origin origin =
     (case origin of
        None \<Rightarrow> Inr True
      | Some o' \<Rightarrow>
          if o' = [] then Inr True
          else if o' \<in> set allowedOrigins \<or> isLovableSubdomain o' \<or> isLovableProject o'
          then Inr True
          else Inl (Error (lit ''Not allowed by CORS'')))"

section \<open>Text extraction\<close>

definition extractTextFromPDF :: "runtime \<Rightarrow> bytes \<Rightarrow> jserror + jsstring" where
  "extractTextFromPDF rt buf =
     (case pdfParse rt buf of
        Inr text \<Rightarrow> Inr text
      | Inl error \<Rightarrow> Inl (Error (lit ''Failed to extract text from PDF: '' @ message error)))"

definition extractTextFromDOCX :: "runtime \<Rightarrow> bytes \<Rightarrow> jserror + jsstring" where
  "extractTextFromDOCX rt buf =
     (case mammoth_extractRawText rt buf of
        Inr text \<Rightarrow> Inr text
      | Inl error \<Rightarrow> Inl (Error (lit ''Failed to extract text from DOCX: '' @ message error)))"

definition extractTextFromTXT :: "runtime \<Rightarrow> bytes \<Rightarrow> jserror + jsstring" where
  "extractTextFromTXT rt buf =
     (case buffer_toString_utf8 rt buf of
        Inr text \<Rightarrow> Inr text
      | Inl error \<Rightarrow> Inl (Error (lit ''Failed to extract text from TXT: '' @ message error)))"

definition extractTextFromFile :: "runtime \<Rightarrow> uploaded_file \<Rightarrow> jserror + jsstring" where
  "extractTextFromFile rt f =
     (let ext = fileExt rt f in
      if ext = lit ''.pdf'' then extractTextFromPDF rt (buffer f)
      else if ext = lit ''.docx'' then extractTextFromDOCX rt (buffer f)
      else if ext = lit ''.txt'' then extractTextFromTXT rt (buffer f)
      else Inl (Error (lit ''Unsupported file type: '' @ ext)))"

section \<open>Requests, responses and what a handler does to the outside\<close>

record request =
  origin :: "jsstring option"
  req_file :: "uploaded_file option"
  body :: "jsstring \<rightharpoonup> jsvalue"

text \<open>\<^verbatim>\<open>req.body.name\<close>: \<^verbatim>\<open>undefined\<close> when the body has no such field.\<close>

definition field :: "(jsstring \<rightharpoonup> jsvalue) \<Rightarrow> string \<Rightarrow> jsvalue" where
  "field b name = (case b (lit name) of None \<Rightarrow> JUndefined | Some v \<Rightarrow> v)"

text \<open>
  A response is a status and either the JSON value given to \<^verbatim>\<open>res.json\<close> or the error
  page of the framework.
\<close>

datatype resbody = Json jsvalue | ErrorPage jserror

record response =
  status :: nat
  content :: resbody

text \<open>
  The calls a handler makes that a claim speaks of, in the order made: the extraction of
  an uploaded file and a prompt sent to the model.
\<close>

datatype effect = ExtractText uploaded_file | GenerateContent jsstring jsstring

definition json_error :: "nat \<Rightarrow> string \<Rightarrow> string \<Rightarrow> jsstring \<Rightarrow> response" where
  "json_error code err key val =
     \<lparr>status = code,
      content = Json (JObj [(lit ''error'', JStr (lit err)), (lit key, JStr val)])\<rparr>"

definition api_key_missing :: response where
  "api_key_missing =
     \<lparr>status = 500,
      content = Json (JObj [(lit ''error'', JStr (lit ''GEMINI_API_KEY not configured in .env file''))])\<rparr>"

text \<open>\<^verbatim>\<open>!process.env.GEMINI_API_KEY\<close>: the variable is unset or empty.\<close>

definition no_api_key :: "runtime \<Rightarrow> bool" where
  "no_api_key rt = (case GEMINI_API_KEY rt of None \<Rightarrow> True | Some k \<Rightarrow> k = [])"

section \<open>POST /api/analyze-resume\<close>

text \<open>
  The prompt and the model name are those of the \<^verbatim>\<open>server.js\<close> that has both POST
  routes. The repository also holds an earlier state of the file, with another analysis
  prompt and model name and without the match-jobs route; the file filter, the origin
  callback, the extraction functions and the steps of this handler are the same in both.
\<close>

definition analysis_prompt_head :: jsstring where
  \<open>analysis_prompt_head = lit ''You are an expert career counselor and resume analyst. Your task is to thoroughly analyze the provided resume and extract COMPREHENSIVE information.

RESUME TEXT:
''\<close>

definition analysis_prompt_tail :: jsstring where
  \<open>analysis_prompt_tail = lit ''

CRITICAL INSTRUCTIONS:
1. Extract EVERY skill mentioned in the resume - be exhaustive and include technical skills, soft skills, tools, languages, methodologies, certifications, and any other competencies mentioned
2. Provide a DETAILED experience summary covering the full arc of their career - include progression, key achievements, and scope of responsibility
3. Extract ALL education mentioned - degrees, certifications, relevant coursework, and continuous learning
4. Identify their career level (entry-level, mid-level, senior, manager, executive)
5. Generate exactly 5 SPECIFIC, CONVERSATIONAL questions designed to understand their career aspirations and match them with the RIGHT opportunities

Generate questions that are:
- Natural and conversational (like a real person talking)
- Specific to their background and experience level
- Designed to uncover career direction (pivot vs. continuation vs. advancement)
- Focused on preferences, values, and constraints
- Never generic or robotic

Format response as ONLY valid JSON (no markdown, no extra text):
{
  "analysis": {
    "name": "Full name (or 'Not specified')",
    "currentRole": "Most recent job title and company",
    "careerLevel": "entry-level|mid-level|senior|manager|executive",
    "skills": ["skill1", "skill2", "skill3", "skill4", "skill5", ... list ALL skills comprehensively],
    "experience": "Write 3-4 sentences providing a comprehensive overview of their entire career journey, key achievements, and progression. Include scope of work, industries, and any unique expertise.",
    "education": "List all degrees, certifications, and relevant educational achievements. Include institution and year if available."
  },
  "questions": [
    "Question 1 - About career direction/pivot (make it specific to their background)",
    "Question 2 - About role preferences (leadership vs individual contributor, or other role-specific preference)",
    "Question 3 - About work environment (remote, location, company size/type)",
    "Question 4 - About industry or domain preferences",
    "Question 5 - About values/priorities (what matters most in next role - growth, stability, mission, compensation, work-life balance, etc.)"
  ]
}

Remember: The questions should feel natural and tailored to their specific background, not generic templates.''\<close>

definition analysis_prompt :: "jsstring \<Rightarrow> jsstring" where
  "analysis_prompt resumeText = analysis_prompt_head @ resumeText @ analysis_prompt_tail"

text \<open>
  The first part of the handler: the text of the uploaded file if there is one (a failed
  extraction answers 400), else the \<^verbatim>\<open>resumeText\<close> field of the body if it is truthy,
  else the empty string the variable starts with.
\<close>

definition select_resumeText :: "runtime \<Rightarrow> request \<Rightarrow> (response + jsvalue) \<times> effect list" where
  "select_resumeText rt req =
     (case req_file req of
        Some f \<Rightarrow>
          (case extractTextFromFile rt f of
             Inr text \<Rightarrow> (Inr (JStr text), [ExtractText f])
           | Inl fileError \<Rightarrow>
               (Inl (json_error 400 ''Failed to process uploaded file'' ''message''
                       (message fileError)),
                [ExtractText f]))
      | None \<Rightarrow>
          (if truthy (field (body req) ''resumeText'')
           then (Inr (field (body req) ''resumeText''), [])
           else (Inr (JStr []), [])))"

text \<open>
  From the parsing of the completion on; both handlers do the same with their own error
  text.
\<close>

definition relay_completion :: "runtime \<Rightarrow> string \<Rightarrow> jsstring \<Rightarrow> response" where
  "relay_completion rt parse_failure responseText =
     (case JSON_parse rt responseText of
        Some parsedResult \<Rightarrow> \<lparr>status = 200, content = Json parsedResult\<rparr>
      | None \<Rightarrow> json_error 500 parse_failure ''details'' responseText)"

text \<open>
  The rest of the handler. \<^verbatim>\<open>resumeText.trim()\<close> on a truthy value that is not a
  string throws a TypeError, which the outer \<^verbatim>\<open>catch\<close> answers.
\<close>

definition analyze_text :: "runtime \<Rightarrow> jsvalue \<Rightarrow> response \<times> effect list" where
  "analyze_text rt resumeText =
     (if \<not> truthy resumeText then
        (json_error 400 ''Resume text or file is required'' ''message''
           (lit ''Please provide either a resume file (PDF, DOCX, TXT) or resume text in the request body''),
         [])
      else
        (case resumeText of
           JStr s \<Rightarrow>
             if length (trim s) = 0 then
               (json_error 400 ''Resume text or file is required'' ''message''
                  (lit ''Please provide either a resume file (PDF, DOCX, TXT) or resume text in the request body''),
                [])
             else if no_api_key rt then (api_key_missing, [])
             else
               (case generateContent rt (lit ''gemini-1.5-pro'') (analysis_prompt s) of
                  Inr responseText \<Rightarrow>
                    (relay_completion rt ''Failed to parse AI response'' responseText,
                     [GenerateContent (lit ''gemini-1.5-pro'') (analysis_prompt s)])
                | Inl error \<Rightarrow>
                    (json_error 500 ''Failed to analyze resume'' ''message'' (message error),
                     [GenerateContent (lit ''gemini-1.5-pro'') (analysis_prompt s)]))
         | _ \<Rightarrow>
             (json_error 500 ''Failed to analyze resume'' ''message''
                (message (TypeError (lit ''resumeText.trim is not a function''))),
              [])))"

definition analyze_resume_handler :: "runtime \<Rightarrow> request \<Rightarrow> response \<times> effect list" where
  "analyze_resume_handler rt req =
     (case select_resumeText rt req of
        (Inl res, effects) \<Rightarrow> (res, effects)
      | (Inr resumeText, effects) \<Rightarrow>
          (case analyze_text rt resumeText of (res, later) \<Rightarrow> (res, effects @ later)))"

section \<open>POST /api/match-jobs\<close>

definition matching_prompt_head :: jsstring where
  \<open>matching_prompt_head = lit ''You are an expert career matching AI. Based on the candidate's profile and their answers about career preferences, generate personalized job recommendations.

CANDIDATE PROFILE:
''\<close>

definition matching_prompt_middle :: jsstring where
  \<open>matching_prompt_middle = lit ''

CANDIDATE'S ANSWERS TO CAREER QUESTIONS:
''\<close>

definition matching_prompt_tail :: jsstring where
  \<open>matching_prompt_tail = lit ''

Your task:
1. Analyze the candidate's skills, experience, and career goals based on their answers
2. Identify their career direction (continuation, pivot, advancement)
3. Determine their ideal role characteristics, company environment, and location preferences
4. Generate 5-8 realistic, personalized job position recommendations with:
   - Job title that would be a good fit
   - Type of company/industry
   - Key responsibilities that leverage their strengths
   - Required vs. nice-to-have qualifications (mapped to their profile)
   - Estimated salary range (based on their experience level)
   - Why this role is a good fit for them based on their answers
   - Whether this represents a continuation, pivot, or advancement

Format as ONLY valid JSON (no markdown, no extra text):
{
  "careerAnalysis": {
    "detectedDirection": "continuation|pivot|advancement",
    "careerGoals": "Brief summary of what they're looking for based on answers",
    "keyStrengths": ["strength1", "strength2", "strength3"],
    "matchCriteria": {
      "roleType": "description of ideal roles",
      "industryPreferences": ["industry1", "industry2"],
      "workEnvironment": "description of preferred work environment based on answers",
      "locationPreferences": "description of location preferences based on answers"
    }
  },
  "jobMatches": [
    {
      "id": 1,
      "jobTitle": "Specific job title",
      "company": "Company type/example",
      "industry": "Industry",
      "roleType": "continuation|pivot|advancement",
      "keyResponsibilities": ["responsibility1", "responsibility2", "responsibility3"],
      "requiredQualifications": ["qual1", "qual2"],
      "niceToHave": ["nice1", "nice2"],
      "salaryRange": "$XXX,000-$XXX,000",
      "workSetup": "remote|hybrid|in-person",
      "whyGoodFit": "Explanation of why this role matches their profile and answers",
      "growthOpportunity": "What they could learn/achieve in this role"
    },
    ... (repeat for 5-8 positions)
  ],
  "nextSteps": [
    "Action 1 to take next",
    "Action 2 to prepare",
    "Action 3 for job search"
  ]
}

Make recommendations realistic and thoughtful - not generic. Reference specific skills and experiences from their profile.''\<close>

text \<open>
  \<^verbatim>\<open>(answer, index) => `Q${index + 1}: ${answer}`\<close>, which throws when the conversion of
  the answer does.
\<close>

definition answer_line :: "runtime \<Rightarrow> jsvalue \<Rightarrow> nat \<Rightarrow> jserror + jsstring" where
  "answer_line rt answer index =
     (case ToString rt answer of
        Inl e \<Rightarrow> Inl e
      | Inr s \<Rightarrow> Inr (lit ''Q'' @ lit (decimal (index + 1)) @ lit '': '' @ s))"

definition answer_lines :: "runtime \<Rightarrow> jsvalue list \<Rightarrow> jserror + jsstring list" where
  "answer_lines rt answers =
     collect (map (\<lambda>(index, answer). answer_line rt answer index) (enumerate 0 answers))"

definition matching_prompt :: "runtime \<Rightarrow> jsvalue \<Rightarrow> jsvalue list \<Rightarrow> jserror + jsstring" where
  "matching_prompt rt userProfile answers =
     (case answer_lines rt answers of
        Inl e \<Rightarrow> Inl e
      | Inr rendered \<Rightarrow>
          Inr (matching_prompt_head @ JSON_stringify rt userProfile @ matching_prompt_middle @
               join (lit ''\<newline>'') rendered @ matching_prompt_tail))"

text \<open>
  \<^verbatim>\<open>userAnswers.map\<close> is a function only on an array; on any other truthy JSON value
  the call throws a TypeError. That error and an error of a conversion arise while the
  prompt is built, before anything is sent, and the outer \<^verbatim>\<open>catch\<close> answers them.
\<close>

definition match_jobs_handler :: "runtime \<Rightarrow> request \<Rightarrow> response \<times> effect list" where
  "match_jobs_handler rt req =
     (let userProfile = field (body req) ''userProfile'';
          userAnswers = field (body req) ''userAnswers''
      in
      if \<not> truthy userProfile \<or> \<not> truthy userAnswers then
        (json_error 400 ''Missing required fields'' ''message''
           (lit ''Please provide userProfile and userAnswers''),
         [])
      else if no_api_key rt then (api_key_missing, [])
      else
        (case userAnswers of
           JArr answers \<Rightarrow>
             (case matching_prompt rt userProfile answers of
                Inl error \<Rightarrow>
                  (json_error 500 ''Failed to match jobs'' ''message'' (message error), [])
              | Inr prompt \<Rightarrow>
                  (case generateContent rt (lit ''gemini-1.5-pro'') prompt of
                     Inr responseText \<Rightarrow>
                       (relay_completion rt ''Failed to parse job matching response'' responseText,
                        [GenerateContent (lit ''gemini-1.5-pro'') prompt])
                   | Inl error \<Rightarrow>
                       (json_error 500 ''Failed to match jobs'' ''message'' (message error),
                        [GenerateContent (lit ''gemini-1.5-pro'') prompt])))
         | _ \<Rightarrow>
             (json_error 500 ''Failed to match jobs'' ''message''
                (message (TypeError (lit ''userAnswers.map is not a function''))),
              [])))"

text \<open>
  The lines of a text, to state what the rendered answers look like: the pieces between
  its line feeds.
\<close>

definition split_lines :: "jsstring \<Rightarrow> jsstring list" where
  "split_lines s =
     foldr (\<lambda>c acc. if c = 0x0A then [] # acc else (c # hd acc) # tl acc) s [[]]"

section \<open>The routes\<close>

text \<open>
  \<^verbatim>\<open>server.js\<close> registers no error-handling middleware. An error that a middleware
  hands on (the \<^verbatim>\<open>cors\<close> callback, the file filter or the size limit of multer)
  therefore ends in the framework's own error handler, which answers with the status of
  the error if it has one and with 500 otherwise; none of these errors has one.
\<close>

definition default_error_handler :: "jserror \<Rightarrow> response" where
  "default_error_handler err = \<lparr>status = 500, content = ErrorPage err\<rparr>"

text \<open>\<^verbatim>\<open>upload.single('file')\<close>: the file filter first, then the limit of 10 MiB.\<close>

definition fileSize_limit :: nat where
  "fileSize_limit = 10 * 1024 * 1024"

definition upload_single :: "runtime \<Rightarrow> request \<Rightarrow> jserror + request" where
  "upload_single rt req =
     (case req_file req of
        None \<Rightarrow> Inr req
      | Some f \<Rightarrow>
          (case fileFilter rt f of
             Inl err \<Rightarrow> Inl err
           | Inr accepted \<Rightarrow>
               if fileSize_limit < length (buffer f) then Inl (MulterError (lit ''File too large''))
               else Inr req))"

definition analyze_resume_route :: "runtime \<Rightarrow> request \<Rightarrow> response \<times> effect list" where
  "analyze_resume_route rt req =
     (case cors_origin (origin req) of
        Inl err \<Rightarrow> (default_error_handler err, [])
      | Inr allowed \<Rightarrow>
          (case upload_single rt req of
             Inl err \<Rightarrow> (default_error_handler err, [])
           | Inr req' \<Rightarrow> analyze_resume_handler rt req'))"

definition match_jobs_route :: "runtime \<Rightarrow> request \<Rightarrow> response \<times> effect list" where
  "match_jobs_route rt req =
     (case cors_origin (origin req) of
        Inl err \<Rightarrow> (default_error_handler err, [])
      | Inr allowed \<Rightarrow> match_jobs_handler rt req)"

section \<open>A sample runtime\<close>

text \<open>
  A runtime for the concrete runs below: the key is set, the model answers every prompt
  with a sentence that is not JSON, and both extraction libraries fail. Its lower-casing
  is the ASCII one, which is what \<^verbatim>\<open>toLowerCase\<close> does on an ASCII string; its JSON
  functions and its printing of numbers are right on the values the runs use (the text
  \<^verbatim>\<open>{}\<close>, the empty object, the number 5); its greatest string length is the one of
  a 64-bit engine.
\<close>

definition ascii_lower :: "jsstring \<Rightarrow> jsstring" where
  "ascii_lower s = map (\<lambda>c. if 0x41 \<le> c \<and> c \<le> 0x5A then c + 0x20 else c) s"

definition sample_runtime :: runtime where
  "sample_runtime =
     \<lparr>GEMINI_API_KEY = Some (lit ''sample-key''),
      generateContent = (\<lambda>model prompt. Inr (lit ''Sorry, I can't help'')),
      JSON_parse = (\<lambda>text. if text = lit ''{}'' then Some (JObj []) else None),
      JSON_stringify = (\<lambda>v. lit ''{}''),
      numberToString = (\<lambda>r. lit ''5''),
      toLowerCase = ascii_lower,
      pdfParse = (\<lambda>buf. Inl (Error (lit ''Invalid PDF structure''))),
      mammoth_extractRawText = (\<lambda>buf. Inl (Error (lit ''Could not find file in options''))),
      max_string_length = 0x1fffffe8\<rparr>"

text \<open>
  Lower-casing of a name made of ASCII and U+0130 (capital I with dot above), which
  \<^verbatim>\<open>toLowerCase\<close> turns into the two code units U+0069 U+0307.
\<close>

definition lower_dotted_I :: "jsstring \<Rightarrow> jsstring" where
  "lower_dotted_I s =
     concat (map (\<lambda>c. if c = 0x130 then [0x69, 0x307]
                       else if 0x41 \<le> c \<and> c \<le> 0x5A then [c + 0x20] else [c]) s)"

section \<open>Facts about the string functions\<close>

lemma unat_of_char16: "unat (of_char c :: jschar) = of_char c"
proof -
  have "(of_char c :: nat) < 256" by (rule nat_of_char_less_256)
  moreover have "(256 :: nat) < 2 ^ 16" by simp
  ultimately have lt: "(of_char c :: nat) < 2 ^ 16" by (rule less_trans)
  have "unat (of_nat (of_char c) :: jschar) = of_char c mod 2 ^ 16"
    by (simp add: unat_of_nat)
  thus ?thesis using lt by (simp add: of_nat_of_char)
qed

lemma of_char16_eq_iff [simp]: "((of_char c :: jschar) = of_char d) = (c = d)"
proof
  assume "(of_char c :: jschar) = of_char d"
  hence "unat (of_char c :: jschar) = unat (of_char d :: jschar)" by simp
  thus "c = d" by (simp add: unat_of_char16)
qed simp

lemma lit_eq_iff [simp]: "(lit a = lit b) = (a = b)"
  by (metis list.inj_map_strong lit_def of_char16_eq_iff)

lemma lit_append: "lit (a @ b) = lit a @ lit b"
  by (simp add: lit_def)

lemma length_lit [simp]: "length (lit a) = length a"
  by (simp add: lit_def)

lemma lit_Nil [simp]: "lit [] = []"
  by (simp add: lit_def)

lemma lit_eq_Nil [simp]: "(lit a = []) = (a = [])"
  by (simp add: lit_def)

lemma lastIndexOf_absent: "c \<notin> set s \<Longrightarrow> lastIndexOf s c = - 1"
  by (simp add: lastIndexOf_def)

lemma length_slice_minus_one: "length (slice_js s (- 1)) \<le> 1"
  by (auto simp: slice_js_def Let_def max_def)

lemma length_allowedTypes: "e \<in> set allowedTypes \<Longrightarrow> 4 \<le> length e"
  by (auto simp: allowedTypes_def)

section \<open>Claims about the upload gate\<close>

lemma slice_minus_one: "slice_js s (- 1) = (if s = [] then [] else [last s])"
proof (cases "s = []")
  case True
  then show ?thesis by (simp add: slice_js_def)
next
  case False
  hence "drop (length s - 1) s = [last s]"
    by (metis append_butlast_last_id append_eq_conv_conj length_butlast)
  moreover have "nat (max (int (length s) + - 1) 0) = length s - 1"
    by (simp add: max_def, arith)
  ultimately show ?thesis using False by (simp add: slice_js_def Let_def)
qed

text \<open>
  Claim C9. A file whose original name has no \<^verbatim>\<open>.\<close> is never accepted, whatever
  lower-casing does to the name: \<^verbatim>\<open>lastIndexOf\<close> is \<open>-1\<close>, \<^verbatim>\<open>slice(-1)\<close> keeps only
  the last code unit of the lower-cased name (nothing if that is empty), which is none of
  \<^verbatim>\<open>.pdf\<close>, \<^verbatim>\<open>.docx\<close>, \<^verbatim>\<open>.txt\<close>, and the filter answers with its error.
\<close>

theorem dotless_name_rejected:
  assumes "0x2E \<notin> set (originalname f)"
  shows "lastIndexOf (originalname f) 0x2E = - 1 \<and>
         fileExt rt f = slice_js (toLowerCase rt (originalname f)) (- 1) \<and>
         fileExt rt f = (if toLowerCase rt (originalname f) = [] then []
                         else [last (toLowerCase rt (originalname f))]) \<and>
         fileExt rt f \<notin> set allowedTypes \<and>
         fileFilter rt f =
           Inl (Error (lit ''Invalid file type. Only PDF, DOCX, and TXT files are allowed.''))"
proof -
  have idx: "lastIndexOf (originalname f) 0x2E = - 1"
    using assms by (rule lastIndexOf_absent)
  have ext: "fileExt rt f = slice_js (toLowerCase rt (originalname f)) (- 1)"
    by (simp add: fileExt_def idx)
  have short: "length (fileExt rt f) \<le> 1"
    unfolding ext by (rule length_slice_minus_one)
  have out: "fileExt rt f \<notin> set allowedTypes"
    using short length_allowedTypes [of "fileExt rt f"] by auto
  hence "fileFilter rt f =
           Inl (Error (lit ''Invalid file type. Only PDF, DOCX, and TXT files are allowed.''))"
    by (simp add: fileFilter_def)
  with idx ext out show ?thesis by (simp add: slice_minus_one)
qed

lemma sample_toLowerCase [simp]: "toLowerCase sample_runtime = ascii_lower"
  by (simp add: sample_runtime_def)

theorem dotless_name_rejected_witness:
  "0x2E \<notin> set (originalname \<lparr>originalname = lit ''pdf'', buffer = []\<rparr>) \<and>
   fileExt sample_runtime \<lparr>originalname = lit ''pdf'', buffer = []\<rparr> = lit ''f'' \<and>
   fileFilter sample_runtime \<lparr>originalname = lit ''pdf'', buffer = []\<rparr> =
     Inl (Error (lit ''Invalid file type. Only PDF, DOCX, and TXT files are allowed.''))"
proof -
  have h: "0x2E \<notin> set (originalname \<lparr>originalname = lit ''pdf'', buffer = []\<rparr>)"
    by (simp add: lit_def)
  note t = dotless_name_rejected [OF h, of sample_runtime]
  from t have "fileExt sample_runtime \<lparr>originalname = lit ''pdf'', buffer = []\<rparr> =
      (if toLowerCase sample_runtime (originalname \<lparr>originalname = lit ''pdf'', buffer = []\<rparr>) = []
       then []
       else [last (toLowerCase sample_runtime
                     (originalname \<lparr>originalname = lit ''pdf'', buffer = []\<rparr>))])"
    by blast
  hence ext: "fileExt sample_runtime \<lparr>originalname = lit ''pdf'', buffer = []\<rparr> = lit ''f''"
    by (simp add: ascii_lower_def lit_def)
  from t have rej: "fileFilter sample_runtime \<lparr>originalname = lit ''pdf'', buffer = []\<rparr> =
     Inl (Error (lit ''Invalid file type. Only PDF, DOCX, and TXT files are allowed.''))"
    by blast
  from h ext rej show ?thesis by blast
qed

section \<open>Claims about the origin policy\<close>

lemma match_https_label_iff:
  assumes "tail \<noteq> []" and "\<not> label_char (of_char (hd tail))"
  shows "match_https_label tail ori \<longleftrightarrow>
         (\<exists>label. label \<noteq> [] \<and> list_all label_char label \<and>
                  ori = lit ''https://'' @ label @ lit tail)"
proof
  assume m: "match_https_label tail ori"
  define rest where "rest = drop (length (lit ''https://'')) ori"
  from m have pre: "take (length (lit ''https://'')) ori = lit ''https://''"
    and ne: "takeWhile label_char rest \<noteq> []"
    and tl: "dropWhile label_char rest = lit tail"
    by (simp_all add: match_https_label_def Let_def rest_def)
  have "ori = take (length (lit ''https://'')) ori @ rest"
    by (simp add: rest_def)
  also have "rest = takeWhile label_char rest @ dropWhile label_char rest"
    by simp
  finally have "ori = lit ''https://'' @ takeWhile label_char rest @ lit tail"
    using pre tl by simp
  moreover have "list_all label_char (takeWhile label_char rest)"
    by (auto simp: list_all_iff dest: set_takeWhileD)
  ultimately show "\<exists>label. label \<noteq> [] \<and> list_all label_char label \<and>
                  ori = lit ''https://'' @ label @ lit tail"
    using ne by blast
next
  assume "\<exists>label. label \<noteq> [] \<and> list_all label_char label \<and>
                  ori = lit ''https://'' @ label @ lit tail"
  then obtain label where ne: "label \<noteq> []" and cls: "list_all label_char label"
    and o: "ori = lit ''https://'' @ label @ lit tail"
    by blast
  from assms have stop: "takeWhile label_char (lit tail) = []"
    and keep: "dropWhile label_char (lit tail) = lit tail"
    by (cases tail; simp add: lit_def)+
  from cls have all: "\<forall>x\<in>set label. label_char x"
    by (simp add: list_all_iff)
  have "takeWhile label_char (label @ lit tail) = label"
    using all stop by simp
  moreover have "dropWhile label_char (label @ lit tail) = lit tail"
    using all keep by simp
  ultimately show "match_https_label tail ori"
    using ne by (simp add: match_https_label_def Let_def o)
qed

lemma isLovableSubdomain_iff:
  "isLovableSubdomain ori \<longleftrightarrow>
     (\<exists>label. label \<noteq> [] \<and> list_all label_char label \<and>
              ori = lit ''https://'' @ label @ lit ''.lovable.dev'')"
  unfolding isLovableSubdomain_def
  by (rule match_https_label_iff) (simp_all add: label_char_def)

lemma isLovableProject_iff:
  "isLovableProject ori \<longleftrightarrow>
     (\<exists>label. label \<noteq> [] \<and> list_all label_char label \<and>
              ori = lit ''https://'' @ label @ lit ''.lovableproject.com'')"
  unfolding isLovableProject_def
  by (rule match_https_label_iff) (simp_all add: label_char_def)

lemma Nil_eq_lit [simp]: "([] = lit a) = (a = [])"
  by (simp add: lit_def)

lemma not_match_empty: "\<not> match_https_label tail []"
  by (simp add: match_https_label_def Let_def lit_def)

lemma evil_not_allowed:
  "cors_origin (Some (lit ''https://evil.com'')) = Inl (Error (lit ''Not allowed by CORS''))"
  by (simp add: cors_origin_def allowedOrigins_def isLovableSubdomain_def isLovableProject_def
      match_https_label_def Let_def label_char_def lit_def)

lemma nested_not_allowed:
  "cors_origin (Some (lit ''https://a.b.lovable.dev'')) = Inl (Error (lit ''Not allowed by CORS''))"
  by (simp add: cors_origin_def allowedOrigins_def isLovableSubdomain_def isLovableProject_def
      match_https_label_def Let_def label_char_def lit_def)

lemma foo_allowed:
  "cors_origin (Some (lit ''https://foo.lovable.dev'')) = Inr True"
  by (simp add: cors_origin_def allowedOrigins_def isLovableSubdomain_def isLovableProject_def
      match_https_label_def Let_def label_char_def lit_def)


text \<open>
  Claim C3, as the code has it. The callback permits an origin exactly when the header is
  absent or empty, or the origin is one of the four listed strings, or it is
  \<^verbatim>\<open>https://\<close>, one non-empty run of ASCII letters, digits and hyphens, and then
  \<^verbatim>\<open>.lovable.dev\<close> or \<^verbatim>\<open>.lovableproject.com\<close>; every other origin gets the error
  \<^verbatim>\<open>Not allowed by CORS\<close>. So \<^verbatim>\<open>https://foo.lovable.dev\<close> is permitted, and
  \<^verbatim>\<open>https://evil.com\<close> and the nested \<^verbatim>\<open>https://a.b.lovable.dev\<close> are not.
\<close>

theorem cors_origin_permits_iff:
  "(cors_origin ori = Inr True \<longleftrightarrow>
      ori = None \<or> ori = Some [] \<or>
      (\<exists>v. ori = Some v \<and>
         (v \<in> set allowedOrigins \<or>
          (\<exists>label. label \<noteq> [] \<and> list_all label_char label \<and>
             (v = lit ''https://'' @ label @ lit ''.lovable.dev'' \<or>
              v = lit ''https://'' @ label @ lit ''.lovableproject.com''))))) \<and>
   (cors_origin ori = Inr True \<or> cors_origin ori = Inl (Error (lit ''Not allowed by CORS''))) \<and>
   cors_origin (Some (lit ''https://foo.lovable.dev'')) = Inr True \<and>
   cors_origin (Some (lit ''https://evil.com'')) = Inl (Error (lit ''Not allowed by CORS'')) \<and>
   cors_origin (Some (lit ''https://a.b.lovable.dev'')) = Inl (Error (lit ''Not allowed by CORS''))"
proof -
  have iff: "cors_origin ori = Inr True \<longleftrightarrow>
      ori = None \<or> ori = Some [] \<or>
      (\<exists>v. ori = Some v \<and>
         (v \<in> set allowedOrigins \<or>
          (\<exists>label. label \<noteq> [] \<and> list_all label_char label \<and>
             (v = lit ''https://'' @ label @ lit ''.lovable.dev'' \<or>
              v = lit ''https://'' @ label @ lit ''.lovableproject.com''))))"
  proof (cases ori)
    case None
    then show ?thesis by (simp add: cors_origin_def)
  next
    case (Some v)
    have "cors_origin (Some v) = Inr True \<longleftrightarrow>
            v = [] \<or> v \<in> set allowedOrigins \<or> isLovableSubdomain v \<or> isLovableProject v"
      by (simp add: cors_origin_def)
    also have "\<dots> \<longleftrightarrow> v = [] \<or> v \<in> set allowedOrigins \<or>
          (\<exists>label. label \<noteq> [] \<and> list_all label_char label \<and>
             (v = lit ''https://'' @ label @ lit ''.lovable.dev'' \<or>
              v = lit ''https://'' @ label @ lit ''.lovableproject.com''))"
      unfolding isLovableSubdomain_iff isLovableProject_iff by blast
    finally show ?thesis using Some by simp
  qed
  have either: "cors_origin ori = Inr True \<or>
                cors_origin ori = Inl (Error (lit ''Not allowed by CORS''))"
    by (simp add: cors_origin_def split: option.split)
  from iff either foo_allowed evil_not_allowed nested_not_allowed show ?thesis
    by blast
qed

theorem cors_origin_permits_iff_witness:
  "cors_origin (Some (lit ''https://my-app.lovableproject.com'')) = Inr True"
proof -
  have "lit ''my-app'' \<noteq> [] \<and> list_all label_char (lit ''my-app'') \<and>
        lit ''https://my-app.lovableproject.com'' =
          lit ''https://'' @ lit ''my-app'' @ lit ''.lovableproject.com''"
    by (simp add: label_char_def lit_def)
  thus ?thesis
    using cors_origin_permits_iff [of "Some (lit ''https://my-app.lovableproject.com'')"]
    by blast
qed

text \<open>
  The claim as stated fails for a request whose Origin header is the empty string: it is
  none of the four strings and matches neither pattern, and it is permitted.
\<close>

theorem empty_origin_permitted:
  "cors_origin (Some []) = Inr True \<and> [] \<notin> set allowedOrigins \<and>
   \<not> isLovableSubdomain [] \<and> \<not> isLovableProject []"
  by (simp add: cors_origin_def allowedOrigins_def isLovableSubdomain_def isLovableProject_def
      not_match_empty)

section \<open>Claims about text extraction\<close>

subsection \<open>The decoder, byte by byte\<close>

lemma idle_step:
  "utf8_decode_from utf8_idle (b # bs) =
     (case utf8_start (unat b) of (out, st') \<Rightarrow> out @ utf8_decode_from st' bs)"
  by (simp add: utf8_idle_def Let_def)

lemma cont_end: "needed st = Suc n \<Longrightarrow> utf8_decode_from st [] = [0xFFFD]"
  by simp

lemma cont_step:
  "needed st = Suc n \<Longrightarrow>
   utf8_decode_from st (c # r) =
     (if unat c < lower st \<or> upper st < unat c then 0xFFFD # utf8_decode_from utf8_idle (c # r)
      else if n = 0 then (code_point st * 64 + unat c mod 64) # utf8_decode_from utf8_idle r
      else utf8_decode_from
             \<lparr>needed = n, code_point = code_point st * 64 + unat c mod 64,
              lower = 0x80, upper = 0xBF\<rparr> r)"
  by (simp add: utf8_idle_def Let_def split: prod.split)

lemma cont_ok:
  assumes "needed st = Suc n" and "0xFFFD \<notin> set (utf8_decode_from st bs)"
  obtains c r where "bs = c # r" and "lower st \<le> unat c" and "unat c \<le> upper st"
    and "utf8_decode_from st bs =
           (if n = 0 then (code_point st * 64 + unat c mod 64) # utf8_decode_from utf8_idle r
            else utf8_decode_from
                   \<lparr>needed = n, code_point = code_point st * 64 + unat c mod 64,
                    lower = 0x80, upper = 0xBF\<rparr> r)"
proof (cases bs)
  case Nil
  with assms show ?thesis by simp
next
  case (Cons c r)
  with assms have "\<not> (unat c < lower st \<or> upper st < unat c)"
    by (auto simp: cont_step [OF assms(1)] simp del: utf8_decode_from.simps)
  with Cons assms(1) that [of c r] show ?thesis
    by (simp add: cont_step [OF assms(1)] del: utf8_decode_from.simps)
qed

subsection \<open>Arithmetic of the byte patterns\<close>

lemma mod_shift: "(a::nat) < m \<Longrightarrow> (k * m + a) mod m = a \<and> (k * m + a) div m = k"
  by simp

lemma lead2_mod: "(a::nat) < 32 \<Longrightarrow> (192 + a) mod 32 = a"
  using mod_shift [of a 32 6] by simp

lemma lead3_mod: "(a::nat) < 16 \<Longrightarrow> (224 + a) mod 16 = a"
  using mod_shift [of a 16 14] by simp

lemma lead4_mod: "(a::nat) < 8 \<Longrightarrow> (240 + a) mod 8 = a"
  using mod_shift [of a 8 30] by simp

lemma cont_mod: "(b::nat) < 64 \<Longrightarrow> (128 + b) mod 64 = b"
  using mod_shift [of b 64 2] by simp

lemma parts2:
  fixes a b :: nat
  assumes "b < 64"
  shows "(a * 64 + b) div 64 = a" and "(a * 64 + b) mod 64 = b"
  using assms by simp_all

lemma parts3:
  fixes a b c :: nat
  assumes "b < 64" "c < 64"
  shows "((a * 64 + b) * 64 + c) div 4096 = a"
    and "((a * 64 + b) * 64 + c) div 64 mod 64 = b"
    and "((a * 64 + b) * 64 + c) mod 64 = c"
proof -
  have "(a * 64 + b) * 64 + c = a * 4096 + (b * 64 + c)" by simp
  moreover from assms have "b * 64 + c < 4096" by simp
  ultimately show "((a * 64 + b) * 64 + c) div 4096 = a"
    using mod_shift [of "b * 64 + c" 4096 a] by simp
  from assms show "((a * 64 + b) * 64 + c) div 64 mod 64 = b"
    by (simp only: parts2)
  from assms show "((a * 64 + b) * 64 + c) mod 64 = c"
    by (simp only: parts2)
qed

lemma parts4:
  fixes a b c d :: nat
  assumes "b < 64" "c < 64" "d < 64"
  shows "(((a * 64 + b) * 64 + c) * 64 + d) div 262144 = a"
    and "(((a * 64 + b) * 64 + c) * 64 + d) div 4096 mod 64 = b"
    and "(((a * 64 + b) * 64 + c) * 64 + d) div 64 mod 64 = c"
    and "(((a * 64 + b) * 64 + c) * 64 + d) mod 64 = d"
proof -
  have e: "((a * 64 + b) * 64 + c) * 64 + d = a * 262144 + ((b * 64 + c) * 64 + d)" by simp
  from assms have "(b * 64 + c) * 64 + d < 262144" by simp
  thus "(((a * 64 + b) * 64 + c) * 64 + d) div 262144 = a"
    using mod_shift [of "(b * 64 + c) * 64 + d" 262144 a] e by simp
  have f: "((a * 64 + b) * 64 + c) * 64 + d = (a * 64 + b) * 4096 + (c * 64 + d)" by simp
  from assms have "c * 64 + d < 4096" by simp
  hence "(((a * 64 + b) * 64 + c) * 64 + d) div 4096 = a * 64 + b"
    using mod_shift [of "c * 64 + d" 4096 "a * 64 + b"] f by simp
  with assms show "(((a * 64 + b) * 64 + c) * 64 + d) div 4096 mod 64 = b"
    by (simp only: parts2)
  from assms show "(((a * 64 + b) * 64 + c) * 64 + d) div 64 mod 64 = c"
    by (simp only: parts2)
  from assms show "(((a * 64 + b) * 64 + c) * 64 + d) mod 64 = d"
    by (simp only: parts2)
qed


lemma unat_byte: "n < 256 \<Longrightarrow> unat (of_nat n :: 8 word) = n"
  by (simp add: unat_of_nat)

lemma start1: "x < 128 \<Longrightarrow> utf8_start x = ([x], utf8_idle)"
  by (simp add: utf8_start_def)

lemma start2:
  "2 \<le> a \<Longrightarrow> a < 32 \<Longrightarrow>
   utf8_start (192 + a) = ([], \<lparr>needed = 1, code_point = a, lower = 0x80, upper = 0xBF\<rparr>)"
  by (simp add: utf8_start_def lead2_mod)

lemma start3:
  "a < 16 \<Longrightarrow>
   utf8_start (224 + a) =
     ([], \<lparr>needed = 2, code_point = a,
           lower = (if a = 0 then 0xA0 else 0x80), upper = (if a = 13 then 0x9F else 0xBF)\<rparr>)"
  by (simp add: utf8_start_def lead3_mod)

lemma start4:
  "a < 5 \<Longrightarrow>
   utf8_start (240 + a) =
     ([], \<lparr>needed = 3, code_point = a,
           lower = (if a = 0 then 0x90 else 0x80), upper = (if a = 4 then 0x8F else 0xBF)\<rparr>)"
  by (simp add: utf8_start_def lead4_mod)

lemma start_bad:
  "(128 \<le> x \<and> x < 194) \<or> 245 \<le> x \<Longrightarrow> utf8_start x = ([0xFFFD], utf8_idle)"
  by (auto simp: utf8_start_def)

lemma enc1: "x < 128 \<Longrightarrow> utf8_encode x = [of_nat x] \<and> scalar_value x"
  by (simp add: utf8_encode_def scalar_value_def)

lemma enc2:
  assumes "2 \<le> a" "a < 32" "b < 64"
  shows "utf8_encode (a * 64 + b) = [of_nat (192 + a), of_nat (128 + b)] \<and>
         scalar_value (a * 64 + b)"
proof -
  from assms have "\<not> a * 64 + b < 128" "a * 64 + b < 2048" by simp_all
  with assms show ?thesis
    by (simp add: utf8_encode_def scalar_value_def parts2 del: mult_Suc mult_Suc_right)
qed

lemma enc3:
  assumes "a < 16" "b < 64" "c < 64" "a = 0 \<longrightarrow> 32 \<le> b" "a = 13 \<longrightarrow> b < 32"
  shows "utf8_encode ((a * 64 + b) * 64 + c) =
           [of_nat (224 + a), of_nat (128 + b), of_nat (128 + c)] \<and>
         scalar_value ((a * 64 + b) * 64 + c)"
proof -
  have lin: "(a * 64 + b) * 64 + c = 4096 * a + 64 * b + c" by simp
  from assms have lo: "\<not> (a * 64 + b) * 64 + c < 2048"
    unfolding lin by (cases "a = 0") simp_all
  from assms have hi: "(a * 64 + b) * 64 + c < 65536"
    unfolding lin by simp
  from assms have sc: "(a * 64 + b) * 64 + c < 55296 \<or> 57344 \<le> (a * 64 + b) * 64 + c"
    unfolding lin by (cases "a < 13"; cases "a = 13") simp_all
  from lo have lo': "\<not> (a * 64 + b) * 64 + c < 128" by simp
  from assms(2,3) lo lo' hi sc show ?thesis
    by (simp only: utf8_encode_def scalar_value_def parts3 if_False if_True) simp
qed

lemma enc4:
  assumes "a < 5" "b < 64" "c < 64" "d < 64" "a = 0 \<longrightarrow> 16 \<le> b" "a = 4 \<longrightarrow> b < 16"
  shows "utf8_encode (((a * 64 + b) * 64 + c) * 64 + d) =
           [of_nat (240 + a), of_nat (128 + b), of_nat (128 + c), of_nat (128 + d)] \<and>
         scalar_value (((a * 64 + b) * 64 + c) * 64 + d)"
proof -
  have lin: "((a * 64 + b) * 64 + c) * 64 + d = 262144 * a + 4096 * b + 64 * c + d" by simp
  from assms have lo: "\<not> ((a * 64 + b) * 64 + c) * 64 + d < 65536"
    unfolding lin by (cases "a = 0") simp_all
  from assms have hi: "((a * 64 + b) * 64 + c) * 64 + d < 1114112"
    unfolding lin by (cases "a = 4") simp_all
  from lo have lo': "\<not> ((a * 64 + b) * 64 + c) * 64 + d < 128"
    "\<not> ((a * 64 + b) * 64 + c) * 64 + d < 2048" by simp_all
  from lo have sc: "57344 \<le> ((a * 64 + b) * 64 + c) * 64 + d" by simp
  from assms(2,3,4) lo lo' hi sc show ?thesis
    by (simp only: utf8_encode_def scalar_value_def parts4 if_False if_True) simp
qed


subsection \<open>Well-formed sequences are decoded\<close>

lemma dec1: "unat b1 < 128 \<Longrightarrow>
  utf8_decode_from utf8_idle (b1 # r) = unat b1 # utf8_decode_from utf8_idle r"
  by (simp add: idle_step start1 del: utf8_decode_from.simps)

lemma cont_in:
  assumes "needed st = Suc n" "unat c = 128 + b" "b < 64" "lower st \<le> 128 + b"
    "128 + b \<le> upper st"
  shows "utf8_decode_from st (c # r) =
     (if n = 0 then (code_point st * 64 + b) # utf8_decode_from utf8_idle r
      else utf8_decode_from
             \<lparr>needed = n, code_point = code_point st * 64 + b, lower = 0x80, upper = 0xBF\<rparr> r)"
  using assms by (simp add: cont_step [OF assms(1)] cont_mod del: utf8_decode_from.simps)

lemma dec2:
  assumes "unat b1 = 192 + a" "2 \<le> a" "a < 32" "unat c1 = 128 + b" "b < 64"
  shows "utf8_decode_from utf8_idle (b1 # c1 # r) = (a * 64 + b) # utf8_decode_from utf8_idle r"
proof -
  have "utf8_decode_from utf8_idle (b1 # c1 # r) =
      utf8_decode_from \<lparr>needed = 1, code_point = a, lower = 0x80, upper = 0xBF\<rparr> (c1 # r)"
    using assms by (simp add: idle_step start2 del: utf8_decode_from.simps)
  also have "\<dots> = (a * 64 + b) # utf8_decode_from utf8_idle r"
    using assms by (subst cont_in [where n = 0 and b = b]) simp_all
  finally show ?thesis .
qed

lemma dec3:
  assumes "unat b1 = 224 + a" "a < 16" "unat c1 = 128 + b" "unat c2 = 128 + c" "b < 64" "c < 64"
    "a = 0 \<longrightarrow> 32 \<le> b" "a = 13 \<longrightarrow> b < 32"
  shows "utf8_decode_from utf8_idle (b1 # c1 # c2 # r) =
           ((a * 64 + b) * 64 + c) # utf8_decode_from utf8_idle r"
proof -
  have "utf8_decode_from utf8_idle (b1 # c1 # c2 # r) =
      utf8_decode_from
        \<lparr>needed = 2, code_point = a, lower = (if a = 0 then 0xA0 else 0x80),
         upper = (if a = 13 then 0x9F else 0xBF)\<rparr> (c1 # c2 # r)"
    using assms by (simp add: idle_step start3 del: utf8_decode_from.simps)
  also have "\<dots> = utf8_decode_from
        \<lparr>needed = 1, code_point = a * 64 + b, lower = 0x80, upper = 0xBF\<rparr> (c2 # r)"
    using assms by (subst cont_in [where n = 1 and b = b]) auto
  also have "\<dots> = ((a * 64 + b) * 64 + c) # utf8_decode_from utf8_idle r"
    using assms by (subst cont_in [where n = 0 and b = c]) simp_all
  finally show ?thesis .
qed

lemma dec4:
  assumes "unat b1 = 240 + a" "a < 5" "unat c1 = 128 + b" "unat c2 = 128 + c" "unat c3 = 128 + d"
    "b < 64" "c < 64" "d < 64" "a = 0 \<longrightarrow> 16 \<le> b" "a = 4 \<longrightarrow> b < 16"
  shows "utf8_decode_from utf8_idle (b1 # c1 # c2 # c3 # r) =
           (((a * 64 + b) * 64 + c) * 64 + d) # utf8_decode_from utf8_idle r"
proof -
  have "utf8_decode_from utf8_idle (b1 # c1 # c2 # c3 # r) =
      utf8_decode_from
        \<lparr>needed = 3, code_point = a, lower = (if a = 0 then 0x90 else 0x80),
         upper = (if a = 4 then 0x8F else 0xBF)\<rparr> (c1 # c2 # c3 # r)"
    using assms by (simp add: idle_step start4 del: utf8_decode_from.simps)
  also have "\<dots> = utf8_decode_from
        \<lparr>needed = 2, code_point = a * 64 + b, lower = 0x80, upper = 0xBF\<rparr> (c2 # c3 # r)"
    using assms by (subst cont_in [where n = 2 and b = b]) auto
  also have "\<dots> = utf8_decode_from
        \<lparr>needed = 1, code_point = (a * 64 + b) * 64 + c, lower = 0x80, upper = 0xBF\<rparr> (c3 # r)"
    using assms by (subst cont_in [where n = 1 and b = c]) simp_all
  also have "\<dots> = (((a * 64 + b) * 64 + c) * 64 + d) # utf8_decode_from utf8_idle r"
    using assms by (subst cont_in [where n = 0 and b = d]) simp_all
  finally show ?thesis .
qed


lemma decomp64: obtains q c where "(n::nat) = q * 64 + c" and "c < 64"
proof
  show "n = n div 64 * 64 + n mod 64" by simp
  show "n mod 64 < 64" by simp
qed

lemma decode_encoded:
  assumes "scalar_value cp"
  shows "utf8_decode_from utf8_idle (utf8_encode cp @ r) = cp # utf8_decode_from utf8_idle r"
proof -
  consider "cp < 128" | "128 \<le> cp" "cp < 2048" | "2048 \<le> cp" "cp < 65536"
    | "65536 \<le> cp" "cp < 1114112"
  proof -
    from assms have "cp < 1114112" by (auto simp: scalar_value_def)
    moreover assume "cp < 128 \<Longrightarrow> thesis" "\<lbrakk>128 \<le> cp; cp < 2048\<rbrakk> \<Longrightarrow> thesis"
      "\<lbrakk>2048 \<le> cp; cp < 65536\<rbrakk> \<Longrightarrow> thesis" "\<lbrakk>65536 \<le> cp; cp < 1114112\<rbrakk> \<Longrightarrow> thesis"
    ultimately show thesis by linarith
  qed
  then show ?thesis
  proof cases
    case 1
    hence "unat (of_nat cp :: 8 word) = cp" by (simp add: unat_byte)
    with 1 show ?thesis
      using dec1 [of "of_nat cp" r] by (simp add: enc1 del: utf8_decode_from.simps)
  next
    case 2
    obtain a b where cp: "cp = a * 64 + b" and b: "b < 64" by (rule decomp64)
    from 2 b have a: "2 \<le> a" "a < 32" unfolding cp by simp_all
    from a b have "unat (of_nat (192 + a) :: 8 word) = 192 + a"
      "unat (of_nat (128 + b) :: 8 word) = 128 + b"
      by (simp_all add: unat_byte del: of_nat_add)
    from dec2 [OF this(1) a this(2) b, of r] enc2 [OF a b] show ?thesis
      unfolding cp by (simp del: utf8_decode_from.simps)
  next
    case 3
    obtain q c where q: "cp = q * 64 + c" and c: "c < 64" by (rule decomp64)
    obtain a b where ab: "q = a * 64 + b" and b: "b < 64" by (rule decomp64)
    have cp: "cp = (a * 64 + b) * 64 + c" by (simp add: q ab)
    from 3 b c have a: "a < 16" unfolding cp by simp
    from 3 b c have lo: "a = 0 \<longrightarrow> 32 \<le> b" unfolding cp by auto
    from assms 3 have "cp < 55296 \<or> 57344 \<le> cp" by (simp add: scalar_value_def)
    with b c have hi: "a = 13 \<longrightarrow> b < 32" unfolding cp by auto
    from a b c have u: "unat (of_nat (224 + a) :: 8 word) = 224 + a"
      "unat (of_nat (128 + b) :: 8 word) = 128 + b" "unat (of_nat (128 + c) :: 8 word) = 128 + c"
      by (simp_all add: unat_byte del: of_nat_add)
    from dec3 [OF u(1) a u(2) u(3) b c lo hi, of r] enc3 [OF a b c lo hi] show ?thesis
      unfolding cp by (simp del: utf8_decode_from.simps)
  next
    case 4
    obtain q1 d where q1: "cp = q1 * 64 + d" and d: "d < 64" by (rule decomp64)
    obtain q2 c where q2: "q1 = q2 * 64 + c" and c: "c < 64" by (rule decomp64)
    obtain a b where ab: "q2 = a * 64 + b" and b: "b < 64" by (rule decomp64)
    have cp: "cp = ((a * 64 + b) * 64 + c) * 64 + d" by (simp add: q1 q2 ab)
    from 4 b c d have a: "a < 5" unfolding cp by simp
    from 4 b c d have lo: "a = 0 \<longrightarrow> 16 \<le> b" unfolding cp by auto
    from 4 b c d have hi: "a = 4 \<longrightarrow> b < 16" unfolding cp by auto
    from a b c d have u: "unat (of_nat (240 + a) :: 8 word) = 240 + a"
      "unat (of_nat (128 + b) :: 8 word) = 128 + b" "unat (of_nat (128 + c) :: 8 word) = 128 + c"
      "unat (of_nat (128 + d) :: 8 word) = 128 + d"
      by (simp_all add: unat_byte del: of_nat_add)
    from dec4 [OF u(1) a u(2) u(3) u(4) b c d lo hi, of r] enc4 [OF a b c d lo hi] show ?thesis
      unfolding cp by (simp del: utf8_decode_from.simps)
  qed
qed

lemma decode_well_formed:
  "list_all scalar_value cps \<Longrightarrow>
   utf8_decode_from utf8_idle (concat (map utf8_encode cps)) = cps"
proof (induction cps)
  case Nil
  show ?case by (simp add: utf8_idle_def)
next
  case (Cons cp cps)
  thus ?case by (simp add: decode_encoded del: utf8_decode_from.simps)
qed


subsection \<open>Sequences decoded without U+FFFD are well-formed\<close>

lemma cont_byte:
  assumes "lo \<le> unat c" "unat c \<le> hi" "128 \<le> lo" "hi \<le> 191"
  obtains b where "unat c = 128 + b" and "b < 64" and "lo \<le> 128 + b" and "128 + b \<le> hi"
proof
  from assms show "unat c = 128 + (unat c - 128)" by simp
  from assms show "unat c - 128 < 64" by simp
  from assms show "lo \<le> 128 + (unat c - 128)" by simp
  from assms show "128 + (unat c - 128) \<le> hi" by simp
qed

lemma shape2:
  assumes "unat b1 = 192 + a" "2 \<le> a" "a < 32"
    and nf: "0xFFFD \<notin> set (utf8_decode_from utf8_idle (b1 # bs))"
  obtains c1 r b where "bs = c1 # r" "unat c1 = 128 + b" "b < 64"
proof -
  let ?st = "\<lparr>needed = 1, code_point = a, lower = 0x80, upper = 0xBF\<rparr>"
  have "utf8_decode_from utf8_idle (b1 # bs) = utf8_decode_from ?st bs"
    using assms(1-3) by (simp add: idle_step start2 del: utf8_decode_from.simps)
  with nf have "0xFFFD \<notin> set (utf8_decode_from ?st bs)" by simp
  then obtain c1 r where bs: "bs = c1 # r" and "lower ?st \<le> unat c1" "unat c1 \<le> upper ?st"
    using cont_ok [of ?st 0 bs] by auto
  then obtain b where "unat c1 = 128 + b" "b < 64"
    using cont_byte [of 128 c1 191] by auto
  with bs that show thesis by blast
qed

lemma shape3:
  assumes "unat b1 = 224 + a" "a < 16"
    and nf: "0xFFFD \<notin> set (utf8_decode_from utf8_idle (b1 # bs))"
  obtains c1 c2 r b c where "bs = c1 # c2 # r" "unat c1 = 128 + b" "unat c2 = 128 + c"
    "b < 64" "c < 64" "a = 0 \<longrightarrow> 32 \<le> b" "a = 13 \<longrightarrow> b < 32"
proof -
  let ?lo = "if a = 0 then 0xA0 else 0x80 :: nat" and ?hi = "if a = 13 then 0x9F else 0xBF :: nat"
  let ?st = "\<lparr>needed = 2, code_point = a, lower = ?lo, upper = ?hi\<rparr>"
  have "utf8_decode_from utf8_idle (b1 # bs) = utf8_decode_from ?st bs"
    using assms(1,2) by (simp add: idle_step start3 del: utf8_decode_from.simps)
  with nf have nf1: "0xFFFD \<notin> set (utf8_decode_from ?st bs)" by simp
  then obtain c1 r1 where bs: "bs = c1 # r1" and r1: "?lo \<le> unat c1" "unat c1 \<le> ?hi"
    and eq: "utf8_decode_from ?st bs =
      utf8_decode_from \<lparr>needed = 1, code_point = a * 64 + unat c1 mod 64,
        lower = 0x80, upper = 0xBF\<rparr> r1"
    using cont_ok [of ?st 1 bs] by auto
  have "128 \<le> ?lo" "?hi \<le> 191" by simp_all
  from cont_byte [OF r1 this]
  obtain b where b: "unat c1 = 128 + b" "b < 64" "?lo \<le> 128 + b" "128 + b \<le> ?hi"
    by blast
  let ?st' = "\<lparr>needed = 1, code_point = a * 64 + unat c1 mod 64, lower = 0x80, upper = 0xBF\<rparr>"
  from nf1 eq have "0xFFFD \<notin> set (utf8_decode_from ?st' r1)" by simp
  then obtain c2 r where r: "r1 = c2 # r" and "lower ?st' \<le> unat c2" "unat c2 \<le> upper ?st'"
    using cont_ok [of ?st' 0 r1] by auto
  then obtain c where c: "unat c2 = 128 + c" "c < 64"
    using cont_byte [of 128 c2 191] by auto
  from b have "a = 0 \<longrightarrow> 32 \<le> b" "a = 13 \<longrightarrow> b < 32" by auto
  with bs r b c that show thesis by blast
qed

lemma shape4:
  assumes "unat b1 = 240 + a" "a < 5"
    and nf: "0xFFFD \<notin> set (utf8_decode_from utf8_idle (b1 # bs))"
  obtains c1 c2 c3 r b c d where "bs = c1 # c2 # c3 # r" "unat c1 = 128 + b"
    "unat c2 = 128 + c" "unat c3 = 128 + d" "b < 64" "c < 64" "d < 64"
    "a = 0 \<longrightarrow> 16 \<le> b" "a = 4 \<longrightarrow> b < 16"
proof -
  let ?lo = "if a = 0 then 0x90 else 0x80 :: nat" and ?hi = "if a = 4 then 0x8F else 0xBF :: nat"
  let ?st = "\<lparr>needed = 3, code_point = a, lower = ?lo, upper = ?hi\<rparr>"
  have "utf8_decode_from utf8_idle (b1 # bs) = utf8_decode_from ?st bs"
    using assms(1,2) by (simp add: idle_step start4 del: utf8_decode_from.simps)
  with nf have nf1: "0xFFFD \<notin> set (utf8_decode_from ?st bs)" by simp
  then obtain c1 r1 where bs: "bs = c1 # r1" and r1: "?lo \<le> unat c1" "unat c1 \<le> ?hi"
    and eq: "utf8_decode_from ?st bs =
      utf8_decode_from \<lparr>needed = 2, code_point = a * 64 + unat c1 mod 64,
        lower = 0x80, upper = 0xBF\<rparr> r1"
    using cont_ok [of ?st 2 bs] by auto
  have "128 \<le> ?lo" "?hi \<le> 191" by simp_all
  from cont_byte [OF r1 this]
  obtain b where b: "unat c1 = 128 + b" "b < 64" "?lo \<le> 128 + b" "128 + b \<le> ?hi"
    by blast
  let ?st' = "\<lparr>needed = 2, code_point = a * 64 + unat c1 mod 64, lower = 0x80, upper = 0xBF\<rparr>"
  from nf1 eq have nf2: "0xFFFD \<notin> set (utf8_decode_from ?st' r1)" by simp
  then obtain c2 r2 where r: "r1 = c2 # r2" and r2: "lower ?st' \<le> unat c2" "unat c2 \<le> upper ?st'"
    and eq2: "utf8_decode_from ?st' r1 =
      utf8_decode_from \<lparr>needed = 1, code_point = code_point ?st' * 64 + unat c2 mod 64,
        lower = 0x80, upper = 0xBF\<rparr> r2"
    using cont_ok [of ?st' 1 r1] by auto
  from r2 obtain c where c: "unat c2 = 128 + c" "c < 64"
    using cont_byte [of 128 c2 191] by auto
  let ?st'' = "\<lparr>needed = 1, code_point = code_point ?st' * 64 + unat c2 mod 64,
    lower = 0x80, upper = 0xBF\<rparr>"
  from nf2 eq2 have "0xFFFD \<notin> set (utf8_decode_from ?st'' r2)" by simp
  then obtain c3 r3 where r': "r2 = c3 # r3" and "lower ?st'' \<le> unat c3" "unat c3 \<le> upper ?st''"
    using cont_ok [of ?st'' 0 r2] by auto
  then obtain d where d: "unat c3 = 128 + d" "d < 64"
    using cont_byte [of 128 c3 191] by auto
  from b have "a = 0 \<longrightarrow> 16 \<le> b" "a = 4 \<longrightarrow> b < 16" by auto
  with bs r r' b c d that show thesis by blast
qed


lemma byte_eq: "unat (b :: 8 word) = n \<Longrightarrow> of_nat n = b"
  by auto

lemma encode_decoded:
  "0xFFFD \<notin> set (utf8_decode_from utf8_idle bs) \<Longrightarrow>
   concat (map utf8_encode (utf8_decode_from utf8_idle bs)) = bs \<and>
   list_all scalar_value (utf8_decode_from utf8_idle bs)"
proof (induction bs rule: length_induct)
  case (1 bs)
  note IH = "1.IH" [rule_format]
  note nf = "1.prems"
  show ?case
  proof (cases bs)
    case Nil
    then show ?thesis by (simp add: utf8_idle_def)
  next
    case (Cons b1 rest)
    consider (ascii) "unat b1 < 128"
      | (bad) "(128 \<le> unat b1 \<and> unat b1 < 194) \<or> 245 \<le> unat b1"
      | (two) "194 \<le> unat b1" "unat b1 < 224"
      | (three) "224 \<le> unat b1" "unat b1 < 240"
      | (four) "240 \<le> unat b1" "unat b1 < 245"
      by linarith
    then show ?thesis
    proof cases
      case ascii
      have d: "utf8_decode_from utf8_idle bs = unat b1 # utf8_decode_from utf8_idle rest"
        unfolding Cons using ascii by (rule dec1)
      with nf have "0xFFFD \<notin> set (utf8_decode_from utf8_idle rest)" by simp
      from IH [OF _ this] Cons
      have "concat (map utf8_encode (utf8_decode_from utf8_idle rest)) = rest"
        "list_all scalar_value (utf8_decode_from utf8_idle rest)" by simp_all
      moreover from enc1 [OF ascii] have "utf8_encode (unat b1) = [b1]" "scalar_value (unat b1)"
        by simp_all
      ultimately show ?thesis unfolding d by (simp add: Cons)
    next
      case bad
      hence "utf8_decode_from utf8_idle bs = 0xFFFD # utf8_decode_from utf8_idle rest"
        unfolding Cons by (simp add: idle_step start_bad del: utf8_decode_from.simps)
      with nf show ?thesis by simp
    next
      case two
      define a where "a = unat b1 - 192"
      from two have a: "unat b1 = 192 + a" "2 \<le> a" "a < 32" by (simp_all add: a_def)
      from nf obtain c1 r b where rest: "rest = c1 # r" and b: "unat c1 = 128 + b" "b < 64"
        unfolding Cons by (rule shape2 [OF a])
      have d: "utf8_decode_from utf8_idle bs = (a * 64 + b) # utf8_decode_from utf8_idle r"
        unfolding Cons rest by (rule dec2 [OF a b])
      with nf have "0xFFFD \<notin> set (utf8_decode_from utf8_idle r)" by simp
      from IH [OF _ this] Cons rest
      have "concat (map utf8_encode (utf8_decode_from utf8_idle r)) = r"
        "list_all scalar_value (utf8_decode_from utf8_idle r)" by simp_all
      moreover from enc2 [OF a(2,3) b(2)] byte_eq [OF a(1)] byte_eq [OF b(1)]
      have "utf8_encode (a * 64 + b) = [b1, c1]" "scalar_value (a * 64 + b)" by simp_all
      ultimately show ?thesis unfolding d by (simp add: Cons rest)
    next
      case three
      define a where "a = unat b1 - 224"
      from three have a: "unat b1 = 224 + a" "a < 16" by (simp_all add: a_def)
      from nf obtain c1 c2 r b c where rest: "rest = c1 # c2 # r"
        and b: "unat c1 = 128 + b" "b < 64" and c: "unat c2 = 128 + c" "c < 64"
        and lim: "a = 0 \<longrightarrow> 32 \<le> b" "a = 13 \<longrightarrow> b < 32"
        unfolding Cons by (rule shape3 [OF a])
      have d: "utf8_decode_from utf8_idle bs =
          ((a * 64 + b) * 64 + c) # utf8_decode_from utf8_idle r"
        unfolding Cons rest by (rule dec3 [OF a b(1) c(1) b(2) c(2) lim])
      with nf have "0xFFFD \<notin> set (utf8_decode_from utf8_idle r)" by simp
      from IH [OF _ this] Cons rest
      have "concat (map utf8_encode (utf8_decode_from utf8_idle r)) = r"
        "list_all scalar_value (utf8_decode_from utf8_idle r)" by simp_all
      moreover from enc3 [OF a(2) b(2) c(2) lim] byte_eq [OF a(1)] byte_eq [OF b(1)]
        byte_eq [OF c(1)]
      have "utf8_encode ((a * 64 + b) * 64 + c) = [b1, c1, c2]"
        "scalar_value ((a * 64 + b) * 64 + c)" by simp_all
      ultimately show ?thesis unfolding d by (simp add: Cons rest)
    next
      case four
      define a where "a = unat b1 - 240"
      from four have a: "unat b1 = 240 + a" "a < 5" by (simp_all add: a_def)
      from nf obtain c1 c2 c3 r b c d where rest: "rest = c1 # c2 # c3 # r"
        and b: "unat c1 = 128 + b" "b < 64" and c: "unat c2 = 128 + c" "c < 64"
        and d: "unat c3 = 128 + d" "d < 64"
        and lim: "a = 0 \<longrightarrow> 16 \<le> b" "a = 4 \<longrightarrow> b < 16"
        unfolding Cons by (rule shape4 [OF a])
      have dd: "utf8_decode_from utf8_idle bs =
          (((a * 64 + b) * 64 + c) * 64 + d) # utf8_decode_from utf8_idle r"
        unfolding Cons rest by (rule dec4 [OF a b(1) c(1) d(1) b(2) c(2) d(2) lim])
      with nf have "0xFFFD \<notin> set (utf8_decode_from utf8_idle r)" by simp
      from IH [OF _ this] Cons rest
      have "concat (map utf8_encode (utf8_decode_from utf8_idle r)) = r"
        "list_all scalar_value (utf8_decode_from utf8_idle r)" by simp_all
      moreover from enc4 [OF a(2) b(2) c(2) d(2) lim] byte_eq [OF a(1)] byte_eq [OF b(1)]
        byte_eq [OF c(1)] byte_eq [OF d(1)]
      have "utf8_encode (((a * 64 + b) * 64 + c) * 64 + d) = [b1, c1, c2, c3]"
        "scalar_value (((a * 64 + b) * 64 + c) * 64 + d)" by simp_all
      ultimately show ?thesis unfolding dd by (simp add: Cons rest)
    qed
  qed
qed


subsection \<open>Extraction of a text file\<close>

lemma malformed_gives_replacement:
  assumes "\<not> well_formed_utf8 buf"
  shows "0xFFFD \<in> set (utf8_decode buf)"
proof -
  have "0xFFFD \<in> set (utf8_decode_from utf8_idle buf)"
  proof (rule ccontr)
    assume "0xFFFD \<notin> set (utf8_decode_from utf8_idle buf)"
    from encode_decoded [OF this] have "well_formed_utf8 buf"
      unfolding well_formed_utf8_def by metis
    with assms show False ..
  qed
  moreover have "utf16_units 0xFFFD = [0xFFFD]"
    by (simp add: utf16_units_def)
  ultimately show ?thesis
    unfolding utf8_decode_def by (auto intro!: bexI [where x = "0xFFFD"])
qed

lemma well_formed_decoded:
  "list_all scalar_value cps \<Longrightarrow>
   utf8_decode (concat (map utf8_encode cps)) = concat (map utf16_units cps)"
  by (simp add: utf8_decode_def decode_well_formed)

lemma extractTextFromTXT_fits:
  "length buf \<le> max_string_length rt \<Longrightarrow> extractTextFromTXT rt buf = Inr (utf8_decode buf)"
  by (simp add: extractTextFromTXT_def buffer_toString_utf8_def)

lemma extractTextFromFile_txt:
  "fileExt rt f = lit ''.txt'' \<Longrightarrow> extractTextFromFile rt f = extractTextFromTXT rt (buffer f)"
  by (simp add: extractTextFromFile_def)

lemma accepted_upload_fits:
  "upload_single rt req = Inr req' \<Longrightarrow> req_file req = Some f \<Longrightarrow>
   length (buffer f) \<le> fileSize_limit"
  by (auto simp: upload_single_def split: sum.splits if_splits)

lemma ff_not_well_formed: "\<not> well_formed_utf8 [0xFF]"
proof
  assume "well_formed_utf8 [0xFF]"
  then obtain cps where sc: "list_all scalar_value cps"
    and enc: "[0xFF] = concat (map utf8_encode cps)"
    unfolding well_formed_utf8_def by blast
  from decode_well_formed [OF sc] enc
  have "cps = utf8_decode_from utf8_idle [0xFF]" by simp
  hence "cps = [0xFFFD]"
    by (simp add: utf8_idle_def utf8_start_def Let_def)
  with enc show False
    by (simp add: utf8_encode_def)
qed

text \<open>
  Claim C7, as the code has it. A \<^verbatim>\<open>.txt\<close> upload is decoded as UTF-8 directly, and
  for no content of the buffer does the extraction fail: a buffer that is not longer than
  the greatest string of the engine, as every upload that passed the limit of 10 MiB is,
  gives the decoded string. A well-formed buffer gives exactly the code points it
  encodes, in UTF-16; a buffer that is not well-formed UTF-8 gives a string that holds
  the replacement character U+FFFD, not an error beginning
  \<^verbatim>\<open>Failed to extract text from TXT:\<close>.
\<close>

theorem txt_extraction_decodes_or_replaces:
  "(length buf \<le> max_string_length rt \<longrightarrow> extractTextFromTXT rt buf = Inr (utf8_decode buf)) \<and>
   (\<forall>cps. list_all scalar_value cps \<and> buf = concat (map utf8_encode cps) \<longrightarrow>
      utf8_decode buf = concat (map utf16_units cps)) \<and>
   (\<not> well_formed_utf8 buf \<longrightarrow> 0xFFFD \<in> set (utf8_decode buf)) \<and>
   (req_file req = Some f \<and> upload_single rt req = Inr req' \<and>
    fileSize_limit \<le> max_string_length rt \<and> fileExt rt f = lit ''.txt'' \<longrightarrow>
      extractTextFromFile rt f = Inr (utf8_decode (buffer f)))"
proof (intro conjI impI allI)
  assume "length buf \<le> max_string_length rt"
  thus "extractTextFromTXT rt buf = Inr (utf8_decode buf)"
    by (rule extractTextFromTXT_fits)
next
  fix cps
  assume "list_all scalar_value cps \<and> buf = concat (map utf8_encode cps)"
  thus "utf8_decode buf = concat (map utf16_units cps)"
    by (simp add: well_formed_decoded)
next
  assume "\<not> well_formed_utf8 buf"
  thus "0xFFFD \<in> set (utf8_decode buf)"
    by (rule malformed_gives_replacement)
next
  assume a: "req_file req = Some f \<and> upload_single rt req = Inr req' \<and>
    fileSize_limit \<le> max_string_length rt \<and> fileExt rt f = lit ''.txt''"
  hence "length (buffer f) \<le> fileSize_limit"
    using accepted_upload_fits [of rt req req' f] by blast
  with a have "length (buffer f) \<le> max_string_length rt" by simp
  with a show "extractTextFromFile rt f = Inr (utf8_decode (buffer f))"
    by (simp add: extractTextFromFile_txt extractTextFromTXT_fits)
qed

lemma sample_max_string_length [simp]: "max_string_length sample_runtime = 0x1fffffe8"
  by (simp add: sample_runtime_def)

lemma hi_bytes: "[0x48, 0x69] = concat (map utf8_encode [0x48, 0x69])"
  by (simp add: utf8_encode_def)

theorem txt_extraction_decodes_or_replaces_witness:
  "extractTextFromTXT sample_runtime [0x48, 0x69] = Inr (lit ''Hi'') \<and>
   \<not> well_formed_utf8 [0xFF] \<and> 0xFFFD \<in> set (utf8_decode [0xFF]) \<and>
   fileExt sample_runtime \<lparr>originalname = lit ''cv.TXT'', buffer = [0x48, 0x69]\<rparr> = lit ''.txt'' \<and>
   extractTextFromFile sample_runtime \<lparr>originalname = lit ''cv.TXT'', buffer = [0x48, 0x69]\<rparr> =
     Inr (lit ''Hi'')"
proof -
  let ?f = "\<lparr>originalname = lit ''cv.TXT'', buffer = [0x48, 0x69]\<rparr>"
  let ?req = "\<lparr>origin = None, req_file = Some ?f, body = Map.empty\<rparr>"
  note t = txt_extraction_decodes_or_replaces [of "[0x48, 0x69]" sample_runtime ?req ?f ?req]
  note u = txt_extraction_decodes_or_replaces [of "[0xFF]" sample_runtime ?req ?f ?req]
  have ext: "fileExt sample_runtime ?f = lit ''.txt''"
    by (simp add: fileExt_def lastIndexOf_def slice_js_def ascii_lower_def lit_def)
  have fits: "length [0x48, 0x69 :: 8 word] \<le> max_string_length sample_runtime"
    by simp
  have sc: "list_all scalar_value [0x48, 0x69]"
    by (simp add: scalar_value_def)
  from t [THEN conjunct2, THEN conjunct1, rule_format, of "[0x48, 0x69]"] sc hi_bytes
  have dec: "utf8_decode [0x48, 0x69] = lit ''Hi''"
    by (simp add: utf16_units_def lit_def)
  from t [THEN conjunct1] fits dec
  have one: "extractTextFromTXT sample_runtime [0x48, 0x69] = Inr (lit ''Hi'')"
    by simp
  from u [THEN conjunct2, THEN conjunct2, THEN conjunct1] ff_not_well_formed
  have two: "0xFFFD \<in> set (utf8_decode [0xFF])"
    by blast
  have up: "upload_single sample_runtime ?req = Inr ?req"
    by (simp add: upload_single_def fileFilter_def ext allowedTypes_def fileSize_limit_def)
  have lim: "fileSize_limit \<le> max_string_length sample_runtime"
    by (simp add: fileSize_limit_def)
  from t [THEN conjunct2, THEN conjunct2, THEN conjunct2] up lim ext dec
  have three: "extractTextFromFile sample_runtime ?f = Inr (lit ''Hi'')"
    by simp
  from one two three ext ff_not_well_formed show ?thesis by blast
qed

text \<open>
  The claim as stated fails: the byte \<^verbatim>\<open>0xFF\<close> alone is not well-formed UTF-8, and a
  buffer cut inside a three-byte sequence is malformed too, yet both are extracted
  without an error, with the replacement character.
\<close>

theorem malformed_utf8_is_extracted:
  "\<not> well_formed_utf8 [0xFF] \<and>
   extractTextFromTXT sample_runtime [0xFF] = Inr [0xFFFD] \<and>
   extractTextFromTXT sample_runtime [0x41, 0xE2, 0x82] = Inr [0x41, 0xFFFD] \<and>
   extractTextFromFile sample_runtime \<lparr>originalname = lit ''cv.txt'', buffer = [0xFF]\<rparr> =
     Inr [0xFFFD]"
proof -
  have a: "utf8_decode [0xFF] = [0xFFFD]"
    by (simp add: utf8_decode_def utf8_idle_def utf8_start_def utf16_units_def Let_def)
  have b: "utf8_decode [0x41, 0xE2, 0x82] = [0x41, 0xFFFD]"
    by (simp add: utf8_decode_def utf8_idle_def utf8_start_def utf16_units_def Let_def)
  have ext: "fileExt sample_runtime \<lparr>originalname = lit ''cv.txt'', buffer = [0xFF]\<rparr> = lit ''.txt''"
    by (simp add: fileExt_def lastIndexOf_def slice_js_def ascii_lower_def lit_def)
  from a b ext ff_not_well_formed show ?thesis
    by (simp add: extractTextFromTXT_def buffer_toString_utf8_def extractTextFromFile_def)
qed

section \<open>Claims about the analyze-resume handler\<close>

lemma trim_empty_iff: "trim s = [] \<longleftrightarrow> (\<forall>c\<in>set s. is_whitespace c)"
proof
  assume "trim s = []"
  hence "dropWhile is_whitespace (rev (dropWhile is_whitespace s)) = []"
    by (simp add: trim_def)
  hence "\<forall>c\<in>set (dropWhile is_whitespace s). is_whitespace c"
    by simp
  hence "dropWhile is_whitespace s = []"
    by (metis dropWhile_eq_Nil_conv hd_dropWhile hd_in_set)
  thus "\<forall>c\<in>set s. is_whitespace c" by simp
next
  assume "\<forall>c\<in>set s. is_whitespace c"
  hence "dropWhile is_whitespace s = []" by simp
  thus "trim s = []" by (simp add: trim_def del: dropWhile_eq_Nil_conv)
qed

lemma select_effects:
  "GenerateContent m p \<notin> set (snd (select_resumeText rt req))"
  by (simp add: select_resumeText_def split: option.split sum.split)

lemma select_with_file:
  "req_file req = Some f \<Longrightarrow>
   select_resumeText rt req =
     (case extractTextFromFile rt f of
        Inr text \<Rightarrow> (Inr (JStr text), [ExtractText f])
      | Inl fileError \<Rightarrow>
          (Inl (json_error 400 ''Failed to process uploaded file'' ''message'' (message fileError)),
           [ExtractText f]))"
  by (simp add: select_resumeText_def)

lemma analyze_text_blank:
  "trim s = [] \<Longrightarrow>
   analyze_text rt (JStr s) =
     (json_error 400 ''Resume text or file is required'' ''message''
        (lit ''Please provide either a resume file (PDF, DOCX, TXT) or resume text in the request body''),
      [])"
  by (simp add: analyze_text_def)

lemma trim_nonempty_truthy: "trim s \<noteq> [] \<Longrightarrow> s \<noteq> []"
  by (auto simp: trim_def)

lemma analyze_text_no_key:
  "trim s \<noteq> [] \<Longrightarrow> no_api_key rt \<Longrightarrow> analyze_text rt (JStr s) = (api_key_missing, [])"
  by (frule trim_nonempty_truthy) (simp add: analyze_text_def)

lemma analyze_text_calls:
  "trim s \<noteq> [] \<Longrightarrow> \<not> no_api_key rt \<Longrightarrow>
   analyze_text rt (JStr s) =
     (case generateContent rt (lit ''gemini-1.5-pro'') (analysis_prompt s) of
        Inr responseText \<Rightarrow> relay_completion rt ''Failed to parse AI response'' responseText
      | Inl error \<Rightarrow> json_error 500 ''Failed to analyze resume'' ''message'' (message error),
      [GenerateContent (lit ''gemini-1.5-pro'') (analysis_prompt s)])"
  by (frule trim_nonempty_truthy) (simp add: analyze_text_def split: sum.split)

lemma analyze_text_effects:
  "GenerateContent m p \<in> set (snd (analyze_text rt v)) \<Longrightarrow>
   \<exists>s. v = JStr s \<and> trim s \<noteq> [] \<and> \<not> no_api_key rt \<and>
       m = lit ''gemini-1.5-pro'' \<and> p = analysis_prompt s"
  by (cases v) (auto simp: analyze_text_def split: if_splits sum.splits)

lemma analyze_handler_effects:
  assumes "GenerateContent m p \<in> set (snd (analyze_resume_handler rt req))"
  shows "\<exists>s effects. select_resumeText rt req = (Inr (JStr s), effects) \<and> trim s \<noteq> [] \<and>
           \<not> no_api_key rt \<and> m = lit ''gemini-1.5-pro'' \<and> p = analysis_prompt s"
proof (cases "select_resumeText rt req")
  case (Pair r effects)
  show ?thesis
  proof (cases r)
    case (Inl res)
    with Pair assms select_effects [of m p rt req] show ?thesis
      by (simp add: analyze_resume_handler_def)
  next
    case (Inr v)
    with Pair assms select_effects [of m p rt req]
    have "GenerateContent m p \<in> set (snd (analyze_text rt v))"
      by (auto simp: analyze_resume_handler_def split: prod.splits)
    from analyze_text_effects [OF this] Pair Inr show ?thesis by auto
  qed
qed


text \<open>
  Claim C5. When the text the handler has obtained, from the file or from the body (the
  empty string if neither gave any), is empty or made of whitespace only, so that trimming
  leaves nothing, the answer is 400 with the error \<^verbatim>\<open>Resume text or file is required\<close>,
  and no prompt is sent to the model.
\<close>

theorem blank_resume_text_rejected:
  assumes "select_resumeText rt req = (Inr (JStr s), effects)"
    and "\<forall>c\<in>set s. is_whitespace c"
  shows "trim s = [] \<and>
         analyze_resume_handler rt req =
           (\<lparr>status = 400,
             content = Json (JObj
               [(lit ''error'', JStr (lit ''Resume text or file is required'')),
                (lit ''message'', JStr (lit ''Please provide either a resume file (PDF, DOCX, TXT) or resume text in the request body''))])\<rparr>,
            effects) \<and>
         (\<forall>m p. GenerateContent m p \<notin> set (snd (analyze_resume_handler rt req)))"
proof -
  from assms(2) have blank: "trim s = []"
    by (simp add: trim_empty_iff)
  hence res: "analyze_resume_handler rt req =
      (json_error 400 ''Resume text or file is required'' ''message''
         (lit ''Please provide either a resume file (PDF, DOCX, TXT) or resume text in the request body''),
       effects)"
    using assms(1) by (simp add: analyze_resume_handler_def analyze_text_blank)
  have "GenerateContent m p \<notin> set (snd (analyze_resume_handler rt req))" for m p
    using analyze_handler_effects [of m p rt req] assms(1) blank by auto
  with blank res show ?thesis by (simp add: json_error_def)
qed


lemma sample_fields [simp]:
  "GEMINI_API_KEY sample_runtime = Some (lit ''sample-key'')"
  "generateContent sample_runtime = (\<lambda>model prompt. Inr (lit ''Sorry, I can't help''))"
  "JSON_parse sample_runtime = (\<lambda>text. if text = lit ''{}'' then Some (JObj []) else None)"
  "JSON_stringify sample_runtime = (\<lambda>v. lit ''{}'')"
  "numberToString sample_runtime = (\<lambda>r. lit ''5'')"
  "pdfParse sample_runtime = (\<lambda>buf. Inl (Error (lit ''Invalid PDF structure'')))"
  "mammoth_extractRawText sample_runtime =
     (\<lambda>buf. Inl (Error (lit ''Could not find file in options'')))"
  by (simp_all add: sample_runtime_def)

lemma blank_request_selected:
  "select_resumeText sample_runtime
     \<lparr>origin = None, req_file = None, body = [lit ''resumeText'' \<mapsto> JStr (lit ''   '')]\<rparr> =
   (Inr (JStr (lit ''   '')), [])"
  by (simp add: select_resumeText_def field_def)

theorem blank_resume_text_rejected_witness:
  "select_resumeText sample_runtime
     \<lparr>origin = None, req_file = None, body = [lit ''resumeText'' \<mapsto> JStr (lit ''   '')]\<rparr> =
     (Inr (JStr (lit ''   '')), []) \<and>
   trim (lit ''   '') = [] \<and>
   analyze_resume_handler sample_runtime
     \<lparr>origin = None, req_file = None, body = [lit ''resumeText'' \<mapsto> JStr (lit ''   '')]\<rparr> =
     (\<lparr>status = 400,
       content = Json (JObj
         [(lit ''error'', JStr (lit ''Resume text or file is required'')),
          (lit ''message'', JStr (lit ''Please provide either a resume file (PDF, DOCX, TXT) or resume text in the request body''))])\<rparr>,
      [])"
proof -
  have ws: "\<forall>c\<in>set (lit ''   ''). is_whitespace c"
    by (simp add: lit_def is_whitespace_def)
  from blank_resume_text_rejected [OF blank_request_selected ws] blank_request_selected
  show ?thesis by blast
qed

section \<open>Claims about the match-jobs handler and the two handlers together\<close>

lemma match_handler_effects:
  assumes "GenerateContent m p \<in> set (snd (match_jobs_handler rt req))"
  shows "\<exists>answers. field (body req) ''userAnswers'' = JArr answers \<and>
           truthy (field (body req) ''userProfile'') \<and> \<not> no_api_key rt \<and>
           m = lit ''gemini-1.5-pro'' \<and>
           matching_prompt rt (field (body req) ''userProfile'') answers = Inr p"
  using assms
  by (cases "field (body req) ''userAnswers''")
     (auto simp: match_jobs_handler_def Let_def split: if_splits sum.splits)

lemma match_handler_no_key:
  "truthy (field (body req) ''userProfile'') \<Longrightarrow> truthy (field (body req) ''userAnswers'') \<Longrightarrow>
   no_api_key rt \<Longrightarrow> match_jobs_handler rt req = (api_key_missing, [])"
  by (simp add: match_jobs_handler_def Let_def)

lemma match_handler_calls:
  "truthy (field (body req) ''userProfile'') \<Longrightarrow>
   field (body req) ''userAnswers'' = JArr answers \<Longrightarrow> \<not> no_api_key rt \<Longrightarrow>
   matching_prompt rt (field (body req) ''userProfile'') answers = Inr prompt \<Longrightarrow>
   match_jobs_handler rt req =
     (case generateContent rt (lit ''gemini-1.5-pro'') prompt of
        Inr responseText \<Rightarrow>
          relay_completion rt ''Failed to parse job matching response'' responseText
      | Inl error \<Rightarrow> json_error 500 ''Failed to match jobs'' ''message'' (message error),
      [GenerateContent (lit ''gemini-1.5-pro'') prompt])"
  by (simp add: match_jobs_handler_def Let_def split: sum.split)

lemma match_handler_conversion_fails:
  "truthy (field (body req) ''userProfile'') \<Longrightarrow>
   field (body req) ''userAnswers'' = JArr answers \<Longrightarrow> \<not> no_api_key rt \<Longrightarrow>
   matching_prompt rt (field (body req) ''userProfile'') answers = Inl err \<Longrightarrow>
   match_jobs_handler rt req =
     (json_error 500 ''Failed to match jobs'' ''message'' (message err), [])"
  by (simp add: match_jobs_handler_def Let_def)

lemma collect_map_Inr: "collect (map (\<lambda>x. Inr (g x)) xs) = Inr (map g xs)"
  by (induction xs) simp_all

lemma answer_lines_strings:
  "answer_lines rt (map JStr as) =
     Inr (map (\<lambda>i. lit ''Q'' @ lit (decimal (i + 1)) @ lit '': '' @ as ! i) [0..<length as])"
proof -
  have "map (\<lambda>(index, answer). answer_line rt answer index) (enumerate 0 (map JStr as)) =
        map (\<lambda>i. Inr (lit ''Q'' @ lit (decimal (i + 1)) @ lit '': '' @ as ! i)) [0..<length as]"
    by (rule nth_equalityI) (simp_all add: nth_enumerate_eq answer_line_def)
  thus ?thesis
    by (simp add: answer_lines_def collect_map_Inr)
qed

lemma matching_prompt_strings:
  "matching_prompt rt userProfile (map JStr as) =
     Inr (matching_prompt_head @ JSON_stringify rt userProfile @ matching_prompt_middle @
          join (lit ''\<newline>'')
            (map (\<lambda>i. lit ''Q'' @ lit (decimal (i + 1)) @ lit '': '' @ as ! i)
               [0..<length as]) @
          matching_prompt_tail)"
  by (simp add: matching_prompt_def answer_lines_strings)

lemma analyze_handler_no_key:
  "select_resumeText rt req = (Inr (JStr s), effects) \<Longrightarrow> trim s \<noteq> [] \<Longrightarrow> no_api_key rt \<Longrightarrow>
   analyze_resume_handler rt req = (api_key_missing, effects)"
  by (simp add: analyze_resume_handler_def analyze_text_no_key)

lemma analyze_handler_calls:
  "select_resumeText rt req = (Inr (JStr s), effects) \<Longrightarrow> trim s \<noteq> [] \<Longrightarrow> \<not> no_api_key rt \<Longrightarrow>
   analyze_resume_handler rt req =
     (case generateContent rt (lit ''gemini-1.5-pro'') (analysis_prompt s) of
        Inr responseText \<Rightarrow> relay_completion rt ''Failed to parse AI response'' responseText
      | Inl error \<Rightarrow> json_error 500 ''Failed to analyze resume'' ''message'' (message error),
      effects @ [GenerateContent (lit ''gemini-1.5-pro'') (analysis_prompt s)])"
  by (simp add: analyze_resume_handler_def analyze_text_calls)

lemma relay_unparsable:
  "JSON_parse rt t = None \<Longrightarrow>
   relay_completion rt err t =
     \<lparr>status = 500, content = Json (JObj [(lit ''error'', JStr (lit err)), (lit ''details'', JStr t)])\<rparr>"
  by (simp add: relay_completion_def json_error_def)

text \<open>
  Claim C2. With \<^verbatim>\<open>GEMINI_API_KEY\<close> unset, a request to either handler that passes the
  handler's validation (a resume text that is a string with something left after
  trimming; a truthy \<^verbatim>\<open>userProfile\<close> and \<^verbatim>\<open>userAnswers\<close>) is answered 500 with the error
  \<^verbatim>\<open>GEMINI_API_KEY not configured in .env file\<close>, and for no request at all is a
  prompt sent to the model.
\<close>

theorem missing_api_key_answers_500:
  assumes "GEMINI_API_KEY rt = None"
  shows "(select_resumeText rt req = (Inr (JStr s), effects) \<and> trim s \<noteq> [] \<longrightarrow>
            analyze_resume_handler rt req =
              (\<lparr>status = 500,
                content = Json (JObj
                  [(lit ''error'', JStr (lit ''GEMINI_API_KEY not configured in .env file''))])\<rparr>,
               effects)) \<and>
         (truthy (field (body req') ''userProfile'') \<and> truthy (field (body req') ''userAnswers'') \<longrightarrow>
            match_jobs_handler rt req' =
              (\<lparr>status = 500,
                content = Json (JObj
                  [(lit ''error'', JStr (lit ''GEMINI_API_KEY not configured in .env file''))])\<rparr>,
               [])) \<and>
         (\<forall>m p. GenerateContent m p \<notin> set (snd (analyze_resume_handler rt req)) \<and>
                GenerateContent m p \<notin> set (snd (match_jobs_handler rt req')))"
proof -
  from assms have nk: "no_api_key rt"
    by (simp add: no_api_key_def)
  have "GenerateContent m p \<notin> set (snd (analyze_resume_handler rt req))" for m p
    using analyze_handler_effects [of m p rt req] nk by blast
  moreover have "GenerateContent m p \<notin> set (snd (match_jobs_handler rt req'))" for m p
    using match_handler_effects [of m p rt req'] nk by blast
  ultimately show ?thesis
    using nk analyze_handler_no_key [of rt req s effects] match_handler_no_key [of req' rt]
    by (simp add: api_key_missing_def)
qed

theorem missing_api_key_answers_500_witness:
  "GEMINI_API_KEY (sample_runtime\<lparr>GEMINI_API_KEY := None\<rparr>) = None \<and>
   analyze_resume_handler (sample_runtime\<lparr>GEMINI_API_KEY := None\<rparr>)
     \<lparr>origin = None, req_file = None,
      body = [lit ''resumeText'' \<mapsto> JStr (lit ''Jane Doe, Software Engineer'')]\<rparr> =
     (\<lparr>status = 500,
       content = Json (JObj
         [(lit ''error'', JStr (lit ''GEMINI_API_KEY not configured in .env file''))])\<rparr>,
      []) \<and>
   match_jobs_handler (sample_runtime\<lparr>GEMINI_API_KEY := None\<rparr>)
     \<lparr>origin = None, req_file = None,
      body = [lit ''userProfile'' \<mapsto> JObj [], lit ''userAnswers'' \<mapsto> JArr [JStr (lit ''remote'')]]\<rparr> =
     (\<lparr>status = 500,
       content = Json (JObj
         [(lit ''error'', JStr (lit ''GEMINI_API_KEY not configured in .env file''))])\<rparr>,
      [])"
proof -
  have key: "GEMINI_API_KEY (sample_runtime\<lparr>GEMINI_API_KEY := None\<rparr>) = None"
    by simp
  have sel: "select_resumeText (sample_runtime\<lparr>GEMINI_API_KEY := None\<rparr>)
      \<lparr>origin = None, req_file = None,
       body = [lit ''resumeText'' \<mapsto> JStr (lit ''Jane Doe, Software Engineer'')]\<rparr> =
      (Inr (JStr (lit ''Jane Doe, Software Engineer'')), [])"
    by (simp add: select_resumeText_def field_def)
  have ne: "trim (lit ''Jane Doe, Software Engineer'') \<noteq> []"
    by (simp add: trim_empty_iff lit_def is_whitespace_def)
  have prof: "truthy (field (body \<lparr>origin = None, req_file = None,
      body = [lit ''userProfile'' \<mapsto> JObj [], lit ''userAnswers'' \<mapsto> JArr [JStr (lit ''remote'')]]\<rparr>)
      ''userProfile'')"
    by (simp add: field_def)
  have ans: "truthy (field (body \<lparr>origin = None, req_file = None,
      body = [lit ''userProfile'' \<mapsto> JObj [], lit ''userAnswers'' \<mapsto> JArr [JStr (lit ''remote'')]]\<rparr>)
      ''userAnswers'')"
    by (simp add: field_def)
  from missing_api_key_answers_500 [OF key] sel ne prof ans key show ?thesis
    by blast
qed

text \<open>
  Claim C1. Whenever a handler has sent a prompt and the completion returned for it is a
  text that \<^verbatim>\<open>JSON.parse\<close> rejects, the answer is 500 with the handler's parse-failure
  error and the completion itself, unchanged, in \<^verbatim>\<open>details\<close>. The text given to
  \<^verbatim>\<open>JSON.parse\<close> is the completion as it came.
\<close>

theorem unparsable_completion_answers_500:
  assumes "JSON_parse rt t = None"
  shows "(GenerateContent m p \<in> set (snd (analyze_resume_handler rt req)) \<and>
          generateContent rt m p = Inr t \<longrightarrow>
            fst (analyze_resume_handler rt req) =
              \<lparr>status = 500,
               content = Json (JObj
                 [(lit ''error'', JStr (lit ''Failed to parse AI response'')),
                  (lit ''details'', JStr t)])\<rparr>) \<and>
         (GenerateContent m' p' \<in> set (snd (match_jobs_handler rt req')) \<and>
          generateContent rt m' p' = Inr t \<longrightarrow>
            fst (match_jobs_handler rt req') =
              \<lparr>status = 500,
               content = Json (JObj
                 [(lit ''error'', JStr (lit ''Failed to parse job matching response'')),
                  (lit ''details'', JStr t)])\<rparr>)"
proof (intro conjI impI)
  assume a: "GenerateContent m p \<in> set (snd (analyze_resume_handler rt req)) \<and>
             generateContent rt m p = Inr t"
  then obtain s effects where sel: "select_resumeText rt req = (Inr (JStr s), effects)"
    and ne: "trim s \<noteq> []" and key: "\<not> no_api_key rt"
    and mp: "m = lit ''gemini-1.5-pro''" "p = analysis_prompt s"
    using analyze_handler_effects [of m p rt req] by blast
  from a mp have "generateContent rt (lit ''gemini-1.5-pro'') (analysis_prompt s) = Inr t"
    by simp
  thus "fst (analyze_resume_handler rt req) =
          \<lparr>status = 500,
           content = Json (JObj
             [(lit ''error'', JStr (lit ''Failed to parse AI response'')),
              (lit ''details'', JStr t)])\<rparr>"
    using analyze_handler_calls [OF sel ne key] assms by (simp add: relay_unparsable)
next
  assume a: "GenerateContent m' p' \<in> set (snd (match_jobs_handler rt req')) \<and>
             generateContent rt m' p' = Inr t"
  then obtain answers where arr: "field (body req') ''userAnswers'' = JArr answers"
    and prof: "truthy (field (body req') ''userProfile'')" and key: "\<not> no_api_key rt"
    and mp: "m' = lit ''gemini-1.5-pro''"
    and pr: "matching_prompt rt (field (body req') ''userProfile'') answers = Inr p'"
    using match_handler_effects [of m' p' rt req'] by blast
  from a mp have "generateContent rt (lit ''gemini-1.5-pro'') p' = Inr t"
    by simp
  thus "fst (match_jobs_handler rt req') =
          \<lparr>status = 500,
           content = Json (JObj
             [(lit ''error'', JStr (lit ''Failed to parse job matching response'')),
              (lit ''details'', JStr t)])\<rparr>"
    using match_handler_calls [OF prof arr key pr] assms by (simp add: relay_unparsable)
qed

lemma sample_has_key: "\<not> no_api_key sample_runtime"
  by (simp add: no_api_key_def)

theorem unparsable_completion_answers_500_witness:
  "JSON_parse sample_runtime (lit ''Sorry, I can't help'') = None \<and>
   fst (analyze_resume_handler sample_runtime
          \<lparr>origin = None, req_file = None,
           body = [lit ''resumeText'' \<mapsto> JStr (lit ''Jane Doe, Software Engineer'')]\<rparr>) =
     \<lparr>status = 500,
      content = Json (JObj
        [(lit ''error'', JStr (lit ''Failed to parse AI response'')),
         (lit ''details'', JStr (lit ''Sorry, I can't help''))])\<rparr> \<and>
   fst (match_jobs_handler sample_runtime
          \<lparr>origin = None, req_file = None,
           body = [lit ''userProfile'' \<mapsto> JObj [],
                   lit ''userAnswers'' \<mapsto> JArr [JStr (lit ''remote'')]]\<rparr>) =
     \<lparr>status = 500,
      content = Json (JObj
        [(lit ''error'', JStr (lit ''Failed to parse job matching response'')),
         (lit ''details'', JStr (lit ''Sorry, I can't help''))])\<rparr>"
proof -
  have bad: "JSON_parse sample_runtime (lit ''Sorry, I can't help'') = None"
    by simp
  have sel: "select_resumeText sample_runtime
      \<lparr>origin = None, req_file = None,
       body = [lit ''resumeText'' \<mapsto> JStr (lit ''Jane Doe, Software Engineer'')]\<rparr> =
      (Inr (JStr (lit ''Jane Doe, Software Engineer'')), [])"
    by (simp add: select_resumeText_def field_def)
  have ne: "trim (lit ''Jane Doe, Software Engineer'') \<noteq> []"
    by (simp add: trim_empty_iff lit_def is_whitespace_def)
  have sent: "GenerateContent (lit ''gemini-1.5-pro'')
        (analysis_prompt (lit ''Jane Doe, Software Engineer''))
      \<in> set (snd (analyze_resume_handler sample_runtime
          \<lparr>origin = None, req_file = None,
           body = [lit ''resumeText'' \<mapsto> JStr (lit ''Jane Doe, Software Engineer'')]\<rparr>))"
    by (simp add: analyze_handler_calls [OF sel ne sample_has_key])
  obtain prompt where pr: "matching_prompt sample_runtime (JObj []) (map JStr [lit ''remote'']) =
      Inr prompt"
    unfolding matching_prompt_strings by blast
  have sent': "GenerateContent (lit ''gemini-1.5-pro'') prompt
      \<in> set (snd (match_jobs_handler sample_runtime
          \<lparr>origin = None, req_file = None,
           body = [lit ''userProfile'' \<mapsto> JObj [],
                   lit ''userAnswers'' \<mapsto> JArr [JStr (lit ''remote'')]]\<rparr>))"
    using pr
    by (subst match_handler_calls [where answers = "[JStr (lit ''remote'')]" and prompt = prompt])
       (simp_all add: field_def sample_has_key)
  have reply: "generateContent sample_runtime m p = Inr (lit ''Sorry, I can't help'')" for m p
    by simp
  from unparsable_completion_answers_500 [OF bad] sent sent' reply bad show ?thesis
    by blast
qed

text \<open>
  Claim C10, as the code has it. When \<^verbatim>\<open>userProfile\<close> and \<^verbatim>\<open>userAnswers\<close> are truthy,
  \<^verbatim>\<open>userAnswers\<close> is not an array and \<^verbatim>\<open>GEMINI_API_KEY\<close> is configured, the request
  passes the 400 check and the key check, \<^verbatim>\<open>userAnswers.map\<close> throws a TypeError before
  anything is sent, and the outer \<^verbatim>\<open>catch\<close> answers 500 with the error
  \<^verbatim>\<open>Failed to match jobs\<close>. (Without the key the answer is the 500 of claim C2.)
\<close>

theorem non_array_answers_answer_500:
  assumes "truthy (field (body req) ''userProfile'')"
    and "truthy (field (body req) ''userAnswers'')"
    and "\<forall>answers. field (body req) ''userAnswers'' \<noteq> JArr answers"
    and "GEMINI_API_KEY rt = Some key" and "key \<noteq> []"
  shows "match_jobs_handler rt req =
           (\<lparr>status = 500,
             content = Json (JObj
               [(lit ''error'', JStr (lit ''Failed to match jobs'')),
                (lit ''message'', JStr (lit ''userAnswers.map is not a function''))])\<rparr>,
            [])"
proof -
  from assms(4,5) have "\<not> no_api_key rt"
    by (simp add: no_api_key_def)
  with assms(1,2,3) show ?thesis
    by (cases "field (body req) ''userAnswers''")
       (simp_all add: match_jobs_handler_def Let_def json_error_def)
qed

theorem non_array_answers_answer_500_witness:
  "match_jobs_handler sample_runtime
     \<lparr>origin = None, req_file = None,
      body = [lit ''userProfile'' \<mapsto> JObj [], lit ''userAnswers'' \<mapsto> JNum 5]\<rparr> =
     (\<lparr>status = 500,
       content = Json (JObj
         [(lit ''error'', JStr (lit ''Failed to match jobs'')),
          (lit ''message'', JStr (lit ''userAnswers.map is not a function''))])\<rparr>,
      [])"
  by (rule non_array_answers_answer_500 [where key = "lit ''sample-key''"])
     (simp_all add: field_def)

text \<open>
  The claim as stated fails when the key is not configured: the same request is then
  answered by the key check, with another error, and never reaches
  \<^verbatim>\<open>userAnswers.map\<close>.
\<close>

theorem non_array_answers_without_key:
  "truthy (field [lit ''userProfile'' \<mapsto> JObj [], lit ''userAnswers'' \<mapsto> JStr (lit ''remote'')]
             ''userProfile'') \<and>
   truthy (field [lit ''userProfile'' \<mapsto> JObj [], lit ''userAnswers'' \<mapsto> JStr (lit ''remote'')]
             ''userAnswers'') \<and>
   match_jobs_handler (sample_runtime\<lparr>GEMINI_API_KEY := None\<rparr>)
     \<lparr>origin = None, req_file = None,
      body = [lit ''userProfile'' \<mapsto> JObj [], lit ''userAnswers'' \<mapsto> JStr (lit ''remote'')]\<rparr> =
     (\<lparr>status = 500,
       content = Json (JObj
         [(lit ''error'', JStr (lit ''GEMINI_API_KEY not configured in .env file''))])\<rparr>,
      []) \<and>
   content (fst (match_jobs_handler (sample_runtime\<lparr>GEMINI_API_KEY := None\<rparr>)
     \<lparr>origin = None, req_file = None,
      body = [lit ''userProfile'' \<mapsto> JObj [], lit ''userAnswers'' \<mapsto> JStr (lit ''remote'')]\<rparr>)) \<noteq>
     Json (JObj
       [(lit ''error'', JStr (lit ''Failed to match jobs'')),
        (lit ''message'', JStr (lit ''userAnswers.map is not a function''))])"
  by (simp add: match_jobs_handler_def Let_def field_def no_api_key_def api_key_missing_def)

section \<open>Claims about the rendered answers\<close>

lemma decimal_value_decimal: "decimal_value (decimal n) = n"
proof (induction n rule: decimal.induct)
  case (1 n)
  have digit: "of_char (''0123456789'' ! d) - 48 = d" if "d < 10" for d :: nat
  proof -
    from that have "d = 0 \<or> d = 1 \<or> d = 2 \<or> d = 3 \<or> d = 4 \<or> d = 5 \<or> d = 6 \<or> d = 7 \<or>
        d = 8 \<or> d = 9"
      by arith
    thus ?thesis by (elim disjE) simp_all
  qed
  show ?case
  proof (cases "n < 10")
    case True
    thus ?thesis
      by (subst decimal.simps) (simp add: decimal_value_def digit)
  next
    case False
    hence "decimal_value (decimal n) = 10 * decimal_value (decimal (n div 10)) + n mod 10"
      by (subst decimal.simps) (simp add: decimal_value_def digit)
    with "1.IH" False show ?thesis by simp
  qed
qed

lemma decimal_digits: "set (decimal n) \<subseteq> set ''0123456789''"
proof (induction n rule: decimal.induct)
  case (1 n)
  have digit: "''0123456789'' ! d \<in> set ''0123456789''" if "d < 10" for d :: nat
    using that by (intro nth_mem) simp
  show ?case
  proof (cases "n < 10")
    case True
    with digit [of n] show ?thesis
      by (subst decimal.simps) simp
  next
    case False
    with "1.IH" digit [of "n mod 10"] show ?thesis
      by (subst decimal.simps) simp
  qed
qed

lemma label_no_newline: "0x0A \<notin> set (lit ''Q'' @ lit (decimal n) @ lit '': '')"
proof -
  have "0x0A \<notin> set (lit (decimal n))"
  proof
    assume "0x0A \<in> set (lit (decimal n))"
    then obtain c where "c \<in> set (decimal n)" and "(of_char c :: jschar) = 0x0A"
      by (auto simp: lit_def)
    with decimal_digits [of n] show False by auto
  qed
  thus ?thesis by (simp add: lit_def)
qed

lemma split_lines_no_newline: "0x0A \<notin> set s \<Longrightarrow> split_lines s = [s]"
  by (induction s) (simp_all add: split_lines_def)

lemma split_lines_append:
  "0x0A \<notin> set s \<Longrightarrow> split_lines (s @ 0x0A # t) = s # split_lines t"
  by (induction s) (simp_all add: split_lines_def)

lemma split_lines_join:
  "xs \<noteq> [] \<Longrightarrow> \<forall>x\<in>set xs. 0x0A \<notin> set x \<Longrightarrow> split_lines (join [0x0A] xs) = xs"
  by (induction "[0x0A] :: jsstring" xs rule: join.induct)
     (simp_all add: split_lines_no_newline split_lines_append)

lemma join_terminated:
  "xs \<noteq> [] \<Longrightarrow> join sep xs @ sep = concat (map (\<lambda>x. x @ sep) xs)"
  by (induction sep xs rule: join.induct) simp_all

lemma newline_lit: "lit ''\<newline>'' = [0x0A]"
  by (simp add: lit_def)


text \<open>
  Claim C8, as the code has it. For answers that are strings, the prompt holds, between
  its fixed texts and after the printed profile, the items \<^verbatim>\<open>Q\<close>, the decimal numeral
  of \<open>i + 1\<close>, \<^verbatim>\<open>: \<close> and answer \<open>i\<close>, for \<open>i\<close> from 0 in the order of the input,
  with one line feed between two items (so the block followed by a line feed is every
  item followed by a line feed). When no answer holds a line feed, the lines of the block
  are exactly these items, one line per answer. The handler sends this prompt.
\<close>

theorem answers_rendered_in_order:
  "\<exists>block.
     matching_prompt rt userProfile (map JStr as) =
       Inr (matching_prompt_head @ JSON_stringify rt userProfile @ matching_prompt_middle @
            block @ matching_prompt_tail) \<and>
     (as = [] \<longrightarrow> block = []) \<and>
     (as \<noteq> [] \<longrightarrow>
        block @ [0x0A] =
          concat (map (\<lambda>i. lit ''Q'' @ lit (decimal (i + 1)) @ lit '': '' @ as ! i @ [0x0A])
                    [0..<length as])) \<and>
     (as \<noteq> [] \<and> (\<forall>a\<in>set as. 0x0A \<notin> set a) \<longrightarrow>
        split_lines block =
          map (\<lambda>i. lit ''Q'' @ lit (decimal (i + 1)) @ lit '': '' @ as ! i) [0..<length as]) \<and>
     (\<forall>i<length as. decimal_value (decimal (i + 1)) = i + 1) \<and>
     (truthy (field (body req) ''userProfile'') \<and>
      field (body req) ''userAnswers'' = JArr (map JStr as) \<and> \<not> no_api_key rt \<and>
      field (body req) ''userProfile'' = userProfile \<longrightarrow>
        snd (match_jobs_handler rt req) =
          [GenerateContent (lit ''gemini-1.5-pro'')
             (matching_prompt_head @ JSON_stringify rt userProfile @ matching_prompt_middle @
              block @ matching_prompt_tail)])"
proof -
  define items where
    "items = map (\<lambda>i. lit ''Q'' @ lit (decimal (i + 1)) @ lit '': '' @ as ! i) [0..<length as]"
  define block where "block = join (lit ''\<newline>'') items"
  have prompt: "matching_prompt rt userProfile (map JStr as) =
       Inr (matching_prompt_head @ JSON_stringify rt userProfile @ matching_prompt_middle @
            block @ matching_prompt_tail)"
    by (simp add: matching_prompt_strings block_def items_def)
  have empty: "as = [] \<longrightarrow> block = []"
    by (simp add: block_def items_def)
  have terminated: "as \<noteq> [] \<longrightarrow>
        block @ [0x0A] =
          concat (map (\<lambda>i. lit ''Q'' @ lit (decimal (i + 1)) @ lit '': '' @ as ! i @ [0x0A])
                    [0..<length as])"
  proof
    assume "as \<noteq> []"
    hence "items \<noteq> []" by (simp add: items_def)
    from join_terminated [OF this, of "[0x0A]"] show "block @ [0x0A] =
          concat (map (\<lambda>i. lit ''Q'' @ lit (decimal (i + 1)) @ lit '': '' @ as ! i @ [0x0A])
                    [0..<length as])"
      by (simp add: block_def newline_lit items_def comp_def)
  qed
  have lines: "as \<noteq> [] \<and> (\<forall>a\<in>set as. 0x0A \<notin> set a) \<longrightarrow> split_lines block = items"
  proof
    assume a: "as \<noteq> [] \<and> (\<forall>a\<in>set as. 0x0A \<notin> set a)"
    hence ne: "items \<noteq> []" by (simp add: items_def)
    have "0x0A \<notin> set x" if "x \<in> set items" for x
    proof -
      from that obtain i where "i < length as"
        and x: "x = (lit ''Q'' @ lit (decimal (i + 1)) @ lit '': '') @ as ! i"
        by (auto simp: items_def)
      with a have "0x0A \<notin> set (as ! i)" by simp
      with label_no_newline [of "i + 1"] show ?thesis
        unfolding x by (simp only: set_append Un_iff) blast
    qed
    hence "\<forall>x\<in>set items. 0x0A \<notin> set x" by blast
    from split_lines_join [OF ne this] show "split_lines block = items"
      by (simp add: block_def newline_lit)
  qed
  have sent: "truthy (field (body req) ''userProfile'') \<and>
      field (body req) ''userAnswers'' = JArr (map JStr as) \<and> \<not> no_api_key rt \<and>
      field (body req) ''userProfile'' = userProfile \<longrightarrow>
        snd (match_jobs_handler rt req) =
          [GenerateContent (lit ''gemini-1.5-pro'')
             (matching_prompt_head @ JSON_stringify rt userProfile @ matching_prompt_middle @
              block @ matching_prompt_tail)]"
    using match_handler_calls [of req "map JStr as" rt] prompt by auto
  from prompt empty terminated lines sent show ?thesis
    unfolding items_def by (intro exI [of _ block]) (simp add: decimal_value_decimal)
qed


lemma decimal_one_two: "decimal (Suc 0) = ''1''" "decimal (Suc (Suc 0)) = ''2''"
  by (simp_all add: decimal.simps)

theorem answers_rendered_in_order_witness:
  "snd (match_jobs_handler sample_runtime
          \<lparr>origin = None, req_file = None,
           body = [lit ''userProfile'' \<mapsto> JObj [],
                   lit ''userAnswers'' \<mapsto> JArr (map JStr [lit ''remote'', lit ''startup''])]\<rparr>) =
     [GenerateContent (lit ''gemini-1.5-pro'')
        (matching_prompt_head @ lit ''{}'' @ matching_prompt_middle @
         lit ''Q1: remote\<newline>Q2: startup'' @ matching_prompt_tail)] \<and>
   split_lines (lit ''Q1: remote\<newline>Q2: startup'') = [lit ''Q1: remote'', lit ''Q2: startup'']"
proof -
  let ?req = "\<lparr>origin = None, req_file = None,
           body = [lit ''userProfile'' \<mapsto> JObj [],
                   lit ''userAnswers'' \<mapsto> JArr (map JStr [lit ''remote'', lit ''startup''])]\<rparr>"
  from answers_rendered_in_order [of sample_runtime "JObj []" "[lit ''remote'', lit ''startup'']" ?req]
  obtain block where
    ended: "[lit ''remote'', lit ''startup''] \<noteq> [] \<longrightarrow>
       block @ [0x0A] =
          concat (map (\<lambda>i. lit ''Q'' @ lit (decimal (i + 1)) @ lit '': '' @
                         [lit ''remote'', lit ''startup''] ! i @ [0x0A])
                    [0..<length [lit ''remote'', lit ''startup'']])"
    and lines: "[lit ''remote'', lit ''startup''] \<noteq> [] \<and>
       (\<forall>a\<in>set [lit ''remote'', lit ''startup'']. 0x0A \<notin> set a) \<longrightarrow>
        split_lines block =
          map (\<lambda>i. lit ''Q'' @ lit (decimal (i + 1)) @ lit '': '' @
                    [lit ''remote'', lit ''startup''] ! i)
            [0..<length [lit ''remote'', lit ''startup'']]"
    and sent: "truthy (field (body ?req) ''userProfile'') \<and>
      field (body ?req) ''userAnswers'' = JArr (map JStr [lit ''remote'', lit ''startup'']) \<and>
      \<not> no_api_key sample_runtime \<and> field (body ?req) ''userProfile'' = JObj [] \<longrightarrow>
        snd (match_jobs_handler sample_runtime ?req) =
          [GenerateContent (lit ''gemini-1.5-pro'')
             (matching_prompt_head @ JSON_stringify sample_runtime (JObj []) @
              matching_prompt_middle @ block @ matching_prompt_tail)]"
    by blast
  have range: "[0..<length [lit ''remote'', lit ''startup'']] = [0, Suc 0]"
    by (simp add: upt_rec)
  from ended have "block @ [0x0A] = lit ''Q1: remote\<newline>Q2: startup'' @ [0x0A]"
    unfolding range by (simp add: decimal_one_two lit_def)
  hence block: "block = lit ''Q1: remote\<newline>Q2: startup''"
    by simp
  have clean: "\<forall>a\<in>set [lit ''remote'', lit ''startup'']. 0x0A \<notin> set a"
    by (simp add: lit_def)
  from lines clean have two: "split_lines (lit ''Q1: remote\<newline>Q2: startup'') =
      [lit ''Q1: remote'', lit ''Q2: startup'']"
    unfolding range block by (simp add: decimal_one_two lit_def)
  from sent have "snd (match_jobs_handler sample_runtime ?req) =
     [GenerateContent (lit ''gemini-1.5-pro'')
        (matching_prompt_head @ lit ''{}'' @ matching_prompt_middle @
         lit ''Q1: remote\<newline>Q2: startup'' @ matching_prompt_tail)]"
    unfolding block by (simp add: field_def sample_has_key)
  with two show ?thesis by blast
qed

text \<open>
  The claim as stated fails for an answer that holds a line feed: the one answer below
  is rendered on two lines, and its prompt is the prompt of two other answers.
\<close>

theorem answer_with_line_feed_spans_two_lines:
  "answer_lines sample_runtime [JStr (lit ''a\<newline>Q2: b'')] = Inr [lit ''Q1: a\<newline>Q2: b''] \<and>
   split_lines (join (lit ''\<newline>'') [lit ''Q1: a\<newline>Q2: b'']) = [lit ''Q1: a'', lit ''Q2: b''] \<and>
   matching_prompt sample_runtime (JObj []) [JStr (lit ''a\<newline>Q2: b'')] =
     matching_prompt sample_runtime (JObj []) [JStr (lit ''a''), JStr (lit ''b'')]"
proof -
  have one: "answer_lines sample_runtime [JStr (lit ''a\<newline>Q2: b'')] =
      Inr [lit ''Q1: a\<newline>Q2: b'']"
    by (simp add: answer_lines_def answer_line_def decimal_one_two lit_def)
  have two: "answer_lines sample_runtime [JStr (lit ''a''), JStr (lit ''b'')] =
      Inr [lit ''Q1: a'', lit ''Q2: b'']"
    by (simp add: answer_lines_def answer_line_def decimal_one_two lit_def)
  have split: "split_lines (join (lit ''\<newline>'') [lit ''Q1: a\<newline>Q2: b'']) =
      [lit ''Q1: a'', lit ''Q2: b'']"
    by (simp add: split_lines_def lit_def)
  have same: "join (lit ''\<newline>'') [lit ''Q1: a\<newline>Q2: b''] =
      join (lit ''\<newline>'') [lit ''Q1: a'', lit ''Q2: b'']"
    by (simp add: lit_def)
  from one two split same show ?thesis
    by (simp add: matching_prompt_def)
qed


text \<open>
  An answer that is an object with an own \<^verbatim>\<open>toString\<close> key cannot be converted: the
  handler answers 500 and sends nothing.
\<close>

lemma unconvertible_answer:
  "match_jobs_handler sample_runtime
     \<lparr>origin = None, req_file = None,
      body = [lit ''userProfile'' \<mapsto> JObj [],
              lit ''userAnswers'' \<mapsto> JArr [JObj [(lit ''toString'', JNum 1)]]]\<rparr> =
     (\<lparr>status = 500,
       content = Json (JObj
         [(lit ''error'', JStr (lit ''Failed to match jobs'')),
          (lit ''message'', JStr (lit ''Cannot convert object to primitive value''))])\<rparr>,
      [])"
  by (simp add: match_jobs_handler_def Let_def field_def sample_has_key matching_prompt_def
      answer_lines_def answer_line_def json_error_def)

section \<open>Claims about uploads on the analyze-resume route\<close>

lemma handler_ignores_body:
  "req_file req = Some f \<Longrightarrow>
   analyze_resume_handler rt (req\<lparr>body := b\<rparr>) = analyze_resume_handler rt req"
  by (simp add: analyze_resume_handler_def select_resumeText_def)

text \<open>
  Claim C4. When the request has a file, the handler's answer and its calls do not depend
  on the body at all, so \<^verbatim>\<open>resumeText\<close> is ignored; every prompt it sends is the
  analysis prompt built from the text extracted from the file, and it sends that prompt
  whenever the extraction gives a text with something left after trimming and the key is
  configured.
\<close>

theorem file_takes_precedence:
  assumes "req_file req = Some f"
  shows "analyze_resume_handler rt (req\<lparr>body := b\<rparr>) = analyze_resume_handler rt req \<and>
         (\<forall>m p. GenerateContent m p \<in> set (snd (analyze_resume_handler rt req)) \<longrightarrow>
            (\<exists>text. extractTextFromFile rt f = Inr text \<and> p = analysis_prompt text)) \<and>
         (\<forall>text. extractTextFromFile rt f = Inr text \<and> trim text \<noteq> [] \<and> \<not> no_api_key rt \<longrightarrow>
            snd (analyze_resume_handler rt req) =
              [ExtractText f, GenerateContent (lit ''gemini-1.5-pro'') (analysis_prompt text)])"
proof (intro conjI allI impI)
  show "analyze_resume_handler rt (req\<lparr>body := b\<rparr>) = analyze_resume_handler rt req"
    using assms by (rule handler_ignores_body)
next
  fix m p
  assume "GenerateContent m p \<in> set (snd (analyze_resume_handler rt req))"
  then obtain s effects where sel: "select_resumeText rt req = (Inr (JStr s), effects)"
    and p: "p = analysis_prompt s"
    using analyze_handler_effects [of m p rt req] by blast
  from sel have "extractTextFromFile rt f = Inr s"
    by (simp add: select_with_file [OF assms] split: sum.splits)
  with p show "\<exists>text. extractTextFromFile rt f = Inr text \<and> p = analysis_prompt text"
    by blast
next
  fix extracted
  assume a: "extractTextFromFile rt f = Inr extracted \<and> trim extracted \<noteq> [] \<and> \<not> no_api_key rt"
  hence sel: "select_resumeText rt req = (Inr (JStr extracted), [ExtractText f])"
    by (simp add: select_with_file [OF assms])
  from a analyze_handler_calls [OF sel]
  show "snd (analyze_resume_handler rt req) =
          [ExtractText f, GenerateContent (lit ''gemini-1.5-pro'') (analysis_prompt extracted)]"
    by simp
qed

theorem file_takes_precedence_witness:
  "req_file \<lparr>origin = None,
             req_file = Some \<lparr>originalname = lit ''cv.txt'', buffer = [0x48, 0x69]\<rparr>,
             body = [lit ''resumeText'' \<mapsto> JStr (lit ''Jane Doe'')]\<rparr> =
     Some \<lparr>originalname = lit ''cv.txt'', buffer = [0x48, 0x69]\<rparr> \<and>
   extractTextFromFile sample_runtime \<lparr>originalname = lit ''cv.txt'', buffer = [0x48, 0x69]\<rparr> =
     Inr (lit ''Hi'') \<and>
   snd (analyze_resume_handler sample_runtime
          \<lparr>origin = None,
           req_file = Some \<lparr>originalname = lit ''cv.txt'', buffer = [0x48, 0x69]\<rparr>,
           body = [lit ''resumeText'' \<mapsto> JStr (lit ''Jane Doe'')]\<rparr>) =
     [ExtractText \<lparr>originalname = lit ''cv.txt'', buffer = [0x48, 0x69]\<rparr>,
      GenerateContent (lit ''gemini-1.5-pro'') (analysis_prompt (lit ''Hi''))]"
proof -
  have f: "req_file \<lparr>origin = None,
             req_file = Some \<lparr>originalname = lit ''cv.txt'', buffer = [0x48, 0x69]\<rparr>,
             body = [lit ''resumeText'' \<mapsto> JStr (lit ''Jane Doe'')]\<rparr> =
     Some \<lparr>originalname = lit ''cv.txt'', buffer = [0x48, 0x69]\<rparr>"
    by simp
  have ext: "fileExt sample_runtime \<lparr>originalname = lit ''cv.txt'', buffer = [0x48, 0x69]\<rparr> =
      lit ''.txt''"
    by (simp add: fileExt_def lastIndexOf_def slice_js_def ascii_lower_def lit_def)
  have "utf8_decode [0x48, 0x69] = lit ''Hi''"
    by (simp add: utf8_decode_def utf8_idle_def utf8_start_def utf16_units_def Let_def lit_def)
  with ext have x: "extractTextFromFile sample_runtime
      \<lparr>originalname = lit ''cv.txt'', buffer = [0x48, 0x69]\<rparr> = Inr (lit ''Hi'')"
    by (simp add: extractTextFromFile_txt extractTextFromTXT_fits)
  have ne: "trim (lit ''Hi'') \<noteq> []"
    by (simp add: trim_empty_iff lit_def is_whitespace_def)
  from file_takes_precedence [OF f, of sample_runtime, THEN conjunct2, THEN conjunct2, rule_format,
      of "lit ''Hi''"] x ne sample_has_key f
  show ?thesis by blast
qed

lemma lastIndexOf_present:
  assumes "c \<in> set s"
  shows "\<exists>i. lastIndexOf s c = int i \<and> i < length s \<and> s ! i = c \<and> c \<notin> set (drop (Suc i) s)"
proof -
  define d where "d = dropWhile (\<lambda>x. x \<noteq> c) (rev s)"
  define t where "t = takeWhile (\<lambda>x. x \<noteq> c) (rev s)"
  have split: "rev s = t @ d"
    by (simp add: t_def d_def)
  from assms have "d \<noteq> []"
    by (simp add: d_def)
  then obtain ds where d: "d = c # ds"
    using hd_dropWhile [of "\<lambda>x. x \<noteq> c" "rev s"] by (cases d) (auto simp: d_def)
  from split have s: "s = rev ds @ c # rev t"
    by (simp add: d rev_swap)
  have notin: "c \<notin> set t"
    by (auto simp: t_def dest: set_takeWhileD)
  have idx: "lastIndexOf s c = int (length ds)"
    using assms by (simp add: lastIndexOf_def d_def [symmetric] d)
  have "length ds < length s"
    by (simp add: s)
  moreover have "s ! length ds = c"
    by (simp add: s nth_append)
  moreover have "drop (Suc (length ds)) s = rev t"
    by (simp add: s)
  ultimately show ?thesis
    using idx notin by auto
qed

lemma slice_js_nat: "slice_js s (int i) = drop i s"
  by (simp add: slice_js_def Let_def min_def)

lemma fileFilter_accepts_iff:
  "fileFilter rt f = Inr True \<longleftrightarrow> fileExt rt f \<in> set allowedTypes"
  by (simp add: fileFilter_def)

lemma route_rejected_upload:
  "req_file req = Some f \<Longrightarrow> cors_origin (origin req) = Inr True \<Longrightarrow>
   fileFilter rt f = Inl err \<Longrightarrow>
   analyze_resume_route rt req = (default_error_handler err, [])"
  by (simp add: analyze_resume_route_def upload_single_def)

lemma route_accepted_upload:
  "req_file req = Some f \<Longrightarrow> cors_origin (origin req) = Inr True \<Longrightarrow>
   fileFilter rt f = Inr True \<Longrightarrow> length (buffer f) \<le> fileSize_limit \<Longrightarrow>
   analyze_resume_route rt req = analyze_resume_handler rt req"
  by (simp add: analyze_resume_route_def upload_single_def)

text \<open>
  What the filter computes: it accepts a file exactly when the lower-cased name, cut at
  the index that the last \<^verbatim>\<open>.\<close> has in the original name, is \<^verbatim>\<open>.pdf\<close>, \<^verbatim>\<open>.docx\<close>
  or \<^verbatim>\<open>.txt\<close>; every other file gets its error, and the route then runs neither the
  handler nor any extraction.
\<close>

lemma fileFilter_rule:
  "(fileFilter rt f = Inr True \<longleftrightarrow>
      fileExt rt f \<in> {lit ''.pdf'', lit ''.docx'', lit ''.txt''}) \<and>
   (fileFilter rt f = Inr True \<longrightarrow>
      (\<exists>i. lastIndexOf (originalname f) 0x2E = int i \<and> i < length (originalname f) \<and>
           originalname f ! i = 0x2E \<and> 0x2E \<notin> set (drop (Suc i) (originalname f)) \<and>
           fileExt rt f = drop i (toLowerCase rt (originalname f)))) \<and>
   (fileFilter rt f \<noteq> Inr True \<longrightarrow>
      fileFilter rt f =
        Inl (Error (lit ''Invalid file type. Only PDF, DOCX, and TXT files are allowed.'')) \<and>
      (req_file req = Some f \<and> cors_origin (origin req) = Inr True \<longrightarrow>
         analyze_resume_route rt req =
           (default_error_handler
              (Error (lit ''Invalid file type. Only PDF, DOCX, and TXT files are allowed.'')),
            [])))"
proof (intro conjI impI)
  show "fileFilter rt f = Inr True \<longleftrightarrow>
          fileExt rt f \<in> {lit ''.pdf'', lit ''.docx'', lit ''.txt''}"
    by (simp add: fileFilter_accepts_iff allowedTypes_def)
next
  assume acc: "fileFilter rt f = Inr True"
  have "0x2E \<in> set (originalname f)"
  proof (rule ccontr)
    assume "0x2E \<notin> set (originalname f)"
    hence "lastIndexOf (originalname f) 0x2E = - 1"
      by (rule lastIndexOf_absent)
    with length_slice_minus_one [of "toLowerCase rt (originalname f)"]
    have "length (fileExt rt f) \<le> 1"
      by (simp add: fileExt_def)
    moreover from acc have "4 \<le> length (fileExt rt f)"
      by (simp add: fileFilter_accepts_iff length_allowedTypes)
    ultimately show False by simp
  qed
  from lastIndexOf_present [OF this] obtain i
    where i: "lastIndexOf (originalname f) 0x2E = int i" "i < length (originalname f)"
      "originalname f ! i = 0x2E" "0x2E \<notin> set (drop (Suc i) (originalname f))"
    by blast
  from i(1) have "fileExt rt f = drop i (toLowerCase rt (originalname f))"
    by (simp add: fileExt_def slice_js_nat)
  with i show "\<exists>i. lastIndexOf (originalname f) 0x2E = int i \<and> i < length (originalname f) \<and>
           originalname f ! i = 0x2E \<and> 0x2E \<notin> set (drop (Suc i) (originalname f)) \<and>
           fileExt rt f = drop i (toLowerCase rt (originalname f))"
    by blast
next
  assume "fileFilter rt f \<noteq> Inr True"
  thus rej: "fileFilter rt f =
        Inl (Error (lit ''Invalid file type. Only PDF, DOCX, and TXT files are allowed.''))"
    by (simp add: fileFilter_def split: if_splits)
  assume "req_file req = Some f \<and> cors_origin (origin req) = Inr True"
  with rej show "analyze_resume_route rt req =
           (default_error_handler
              (Error (lit ''Invalid file type. Only PDF, DOCX, and TXT files are allowed.'')),
            [])"
    by (simp add: route_rejected_upload)
qed

lemma xlsx_ext:
  "fileExt sample_runtime \<lparr>originalname = lit ''resume.xlsx'', buffer = []\<rparr> = lit ''.xlsx''"
  by (simp add: fileExt_def lastIndexOf_def slice_js_def ascii_lower_def lit_def)

text \<open>
  Claim C6. The gate takes the extension from the lower-cased name and refuses an upload
  named \<^verbatim>\<open>resume.xlsx\<close> with its error before any extraction, as the claim says; but
  the answer to that request, sent without an Origin header, has status 500 and not the
  claimed 400, because nothing in \<^verbatim>\<open>server.js\<close> handles the error the filter hands on.
  The handler itself, given the same file, answers 400 for the unsupported type.
\<close>

theorem rejected_upload_is_answered_500:
  "fileExt sample_runtime \<lparr>originalname = lit ''resume.xlsx'', buffer = []\<rparr> = lit ''.xlsx'' \<and>
   fileFilter sample_runtime \<lparr>originalname = lit ''resume.xlsx'', buffer = []\<rparr> =
     Inl (Error (lit ''Invalid file type. Only PDF, DOCX, and TXT files are allowed.'')) \<and>
   analyze_resume_route sample_runtime
     \<lparr>origin = None, req_file = Some \<lparr>originalname = lit ''resume.xlsx'', buffer = []\<rparr>,
      body = Map.empty\<rparr> =
     (\<lparr>status = 500,
       content = ErrorPage
         (Error (lit ''Invalid file type. Only PDF, DOCX, and TXT files are allowed.''))\<rparr>,
      []) \<and>
   status (fst (analyze_resume_route sample_runtime
     \<lparr>origin = None, req_file = Some \<lparr>originalname = lit ''resume.xlsx'', buffer = []\<rparr>,
      body = Map.empty\<rparr>)) \<noteq> 400 \<and>
   analyze_resume_handler sample_runtime
     \<lparr>origin = None, req_file = Some \<lparr>originalname = lit ''resume.xlsx'', buffer = []\<rparr>,
      body = Map.empty\<rparr> =
     (\<lparr>status = 400,
       content = Json (JObj
         [(lit ''error'', JStr (lit ''Failed to process uploaded file'')),
          (lit ''message'', JStr (lit ''Unsupported file type: .xlsx''))])\<rparr>,
      [ExtractText \<lparr>originalname = lit ''resume.xlsx'', buffer = []\<rparr>])"
proof -
  let ?f = "\<lparr>originalname = lit ''resume.xlsx'', buffer = []\<rparr>"
  let ?req = "\<lparr>origin = None, req_file = Some ?f, body = Map.empty\<rparr>"
  have rej: "fileFilter sample_runtime ?f =
      Inl (Error (lit ''Invalid file type. Only PDF, DOCX, and TXT files are allowed.''))"
    by (simp add: fileFilter_def xlsx_ext allowedTypes_def)
  have route: "analyze_resume_route sample_runtime ?req =
     (\<lparr>status = 500,
       content = ErrorPage
         (Error (lit ''Invalid file type. Only PDF, DOCX, and TXT files are allowed.''))\<rparr>,
      [])"
    by (simp add: analyze_resume_route_def cors_origin_def upload_single_def rej
        default_error_handler_def)
  have "extractTextFromFile sample_runtime ?f =
      Inl (Error (lit ''Unsupported file type: '' @ lit ''.xlsx''))"
    by (simp add: extractTextFromFile_def xlsx_ext)
  hence handler: "analyze_resume_handler sample_runtime ?req =
     (\<lparr>status = 400,
       content = Json (JObj
         [(lit ''error'', JStr (lit ''Failed to process uploaded file'')),
          (lit ''message'', JStr (lit ''Unsupported file type: .xlsx''))])\<rparr>,
      [ExtractText ?f])"
    by (simp add: analyze_resume_handler_def select_resumeText_def json_error_def lit_def)
  from xlsx_ext rej route handler show ?thesis by simp
qed

text \<open>
  The index of the last \<^verbatim>\<open>.\<close> is taken in the original name and used in the
  lower-cased one. Where lower-casing lengthens the name the cut is misplaced: a file
  named U+0130 \<^verbatim>\<open>.pdf\<close> is refused although its extension is \<^verbatim>\<open>.pdf\<close>.
\<close>

lemma dotted_I_pdf_refused:
  "fileExt (sample_runtime\<lparr>toLowerCase := lower_dotted_I\<rparr>)
     \<lparr>originalname = 0x130 # lit ''.pdf'', buffer = []\<rparr> = 0x307 # lit ''.pdf'' \<and>
   fileFilter (sample_runtime\<lparr>toLowerCase := lower_dotted_I\<rparr>)
     \<lparr>originalname = 0x130 # lit ''.pdf'', buffer = []\<rparr> =
     Inl (Error (lit ''Invalid file type. Only PDF, DOCX, and TXT files are allowed.''))"
proof -
  have "fileExt (sample_runtime\<lparr>toLowerCase := lower_dotted_I\<rparr>)
     \<lparr>originalname = 0x130 # lit ''.pdf'', buffer = []\<rparr> = 0x307 # lit ''.pdf''"
    by (simp add: fileExt_def lastIndexOf_def slice_js_def lower_dotted_I_def lit_def)
  thus ?thesis
    by (simp add: fileFilter_def allowedTypes_def lit_def)
qed

end
